theory Spec2Isabelle
  imports Complex_Main
begin

text \<open>
  A model of the copy-trading relay's signal pipeline: the translator that turns stream
  events into master events (\<^verbatim>\<open>MASTER/payload_.py\<close>), the position monitor
  (\<^verbatim>\<open>COPY/pv_fsm_.py\<close>), the margin clamp of the intent factory
  (\<^verbatim>\<open>COPY/state_.py\<close>), the cancel path of the executor (\<^verbatim>\<open>COPY/exequter_.py\<close>), the
  manual close (\<^verbatim>\<open>COPY/cmd_.py\<close>, \<^verbatim>\<open>COPY/copy_.py\<close>) and symbol normalisation
  (\<^verbatim>\<open>MASTER/state_.py\<close>).

  Every method is a function from the state it reads to the state it leaves.  What the
  outside world supplies is an argument: the clock (\<^verbatim>\<open>now()\<close>), the answer of the
  exchange, the stop flag.  A method runs from its first line to its return without another
  task of the event loop touching its state in between.
\<close>

section \<open>Python values\<close>

text \<open>
  The exchange delivers JSON objects; after \<^verbatim>\<open>json.loads\<close> a field is \<^verbatim>\<open>None\<close>, a
  \<^verbatim>\<open>bool\<close>, an \<^verbatim>\<open>int\<close>, a \<^verbatim>\<open>float\<close> or a \<^verbatim>\<open>str\<close>.  A \<^verbatim>\<open>float\<close> is
  modelled by the rational number it denotes and float arithmetic by exact arithmetic
  (no \<^verbatim>\<open>inf\<close>, no \<^verbatim>\<open>nan\<close>), except in the timestamp scaling of the translator, where
  the product is rounded to a double.  Nested lists and objects as field values are
  outside the model.
\<close>

datatype pyval = PNone | PBool bool | PInt int | PFloat rat | PStr string

type_synonym pydict = "string \<rightharpoonup> pyval"

text \<open>\<^verbatim>\<open>d.get(k)\<close>: a missing key reads as \<^verbatim>\<open>None\<close>.\<close>

definition dget :: "pydict \<Rightarrow> string \<Rightarrow> pyval" where
  "dget d k = (case d k of None \<Rightarrow> PNone | Some v \<Rightarrow> v)"

text \<open>Truthiness, as \<^verbatim>\<open>if v:\<close> and \<^verbatim>\<open>bool(v)\<close> see it.\<close>

fun truthy :: "pyval \<Rightarrow> bool" where
  "truthy PNone = False"
| "truthy (PBool b) = b"
| "truthy (PInt i) = (i \<noteq> 0)"
| "truthy (PFloat r) = (r \<noteq> 0)"
| "truthy (PStr s) = (s \<noteq> [])"

text \<open>\<^verbatim>\<open>a or b\<close>.\<close>

definition py_or :: "pyval \<Rightarrow> pyval \<Rightarrow> pyval" where
  "py_or a b = (if truthy a then a else b)"

text \<open>
  The number behind a value for which \<^verbatim>\<open>isinstance(v, (int, float))\<close> holds;
  \<^verbatim>\<open>bool\<close> is a subclass of \<^verbatim>\<open>int\<close>.
\<close>

fun num_of :: "pyval \<Rightarrow> rat option" where
  "num_of (PBool b) = Some (if b then 1 else 0)"
| "num_of (PInt i) = Some (of_int i)"
| "num_of (PFloat r) = Some r"
| "num_of PNone = None"
| "num_of (PStr s) = None"

text \<open>
  \<^verbatim>\<open>a == b\<close>: numbers compare by value across \<^verbatim>\<open>bool\<close>, \<^verbatim>\<open>int\<close> and \<^verbatim>\<open>float\<close>;
  this is also the equality a \<^verbatim>\<open>set\<close> uses for membership.
\<close>

definition py_eq :: "pyval \<Rightarrow> pyval \<Rightarrow> bool" where
  "py_eq a b = (case (num_of a, num_of b) of
       (Some x, Some y) \<Rightarrow> x = y
     | (None, None) \<Rightarrow> a = b
     | _ \<Rightarrow> False)"

text \<open>\<^verbatim>\<open>int(x)\<close> on a float truncates towards zero.\<close>

definition py_trunc :: "rat \<Rightarrow> int" where
  "py_trunc x = (if 0 \<le> x then \<lfloor>x\<rfloor> else \<lceil>x\<rceil>)"

text \<open>
  \<^verbatim>\<open>round(x, ndigits)\<close>: to \<open>ndigits\<close> decimal places, a tie going to the even
  neighbour.
\<close>

definition round_half_even :: "rat \<Rightarrow> int" where
  "round_half_even x =
     (let f = \<lfloor>x\<rfloor>; d = x - of_int f
      in if d < 1 / 2 then f
         else if d > 1 / 2 then f + 1
         else if even f then f else f + 1)"

definition py_round :: "rat \<Rightarrow> int \<Rightarrow> rat" where
  "py_round x ndigits =
     (let scale = (if 0 \<le> ndigits then 10 ^ nat ndigits else 1 / 10 ^ nat (- ndigits))
      in of_int (round_half_even (x * scale)) / scale)"

text \<open>
  Where the last digit of a float product decides the result, the product is rounded as
  the machine does it: to the nearest double (53 significant bits, a tie to the even
  neighbour, gradual underflow below \<open>2\<^sup>-\<^sup>1\<^sup>0\<^sup>2\<^sup>2\<close>).  Overflow to \<^verbatim>\<open>inf\<close> is outside the
  model.  \<open>bit_length\<close> is the number of binary digits of a positive integer and
  \<open>log2_floor x\<close> the exponent \<open>e\<close> with \<open>2\<^sup>e \<le> x < 2\<^sup>e\<^sup>+\<^sup>1\<close> of a positive \<open>x\<close>.
\<close>

function bit_length :: "int \<Rightarrow> nat" where
  "bit_length n = (if n \<le> 0 then 0 else Suc (bit_length (n div 2)))"
  by pat_completeness auto
termination
  by (relation "measure nat") auto

declare bit_length.simps [simp del]

definition log2_floor :: "rat \<Rightarrow> int" where
  "log2_floor x =
     (if 1 \<le> x then int (bit_length \<lfloor>x\<rfloor>) - 1 else - int (bit_length (\<lceil>1 / x\<rceil> - 1)))"

definition pow2 :: "int \<Rightarrow> rat" where
  "pow2 e = (if 0 \<le> e then 2 ^ nat e else 1 / 2 ^ nat (- e))"

definition double_round :: "rat \<Rightarrow> rat" where
  "double_round x =
     (if x = 0 then 0
      else let a = \<bar>x\<bar>;
               e = max (log2_floor a) (- 1022);
               ulp = pow2 (e - 52)
           in sgn x * of_int (round_half_even (a / ulp)) * ulp)"

text \<open>\<^verbatim>\<open>x * y\<close> on two floats.\<close>

definition float_times :: "rat \<Rightarrow> rat \<Rightarrow> rat" where
  "float_times x y = double_round (x * y)"

text \<open>
  \<^verbatim>\<open>float(s)\<close> and \<^verbatim>\<open>int(s)\<close> on a string are Python built-ins, not code of this
  repository: they are parameters of the model (\<open>None\<close> stands for \<^verbatim>\<open>ValueError\<close>).
\<close>

record parsers =
  float_of_str :: "string \<Rightarrow> rat option"
  int_of_str :: "string \<Rightarrow> int option"

text \<open>
  \<^verbatim>\<open>Utils.safe_float(value, default)\<close> and \<^verbatim>\<open>Utils.safe_int(value, default)\<close>: the
  conversion, or the default where Python raises \<^verbatim>\<open>TypeError\<close> or \<^verbatim>\<open>ValueError\<close>.
\<close>

fun safe_float :: "parsers \<Rightarrow> pyval \<Rightarrow> rat \<Rightarrow> rat" where
  "safe_float P PNone d = d"
| "safe_float P (PBool b) d = (if b then 1 else 0)"
| "safe_float P (PInt i) d = of_int i"
| "safe_float P (PFloat r) d = r"
| "safe_float P (PStr s) d = (case float_of_str P s of Some r \<Rightarrow> r | None \<Rightarrow> d)"

fun safe_int :: "parsers \<Rightarrow> pyval \<Rightarrow> int \<Rightarrow> int" where
  "safe_int P PNone d = d"
| "safe_int P (PBool b) d = (if b then 1 else 0)"
| "safe_int P (PInt i) d = i"
| "safe_int P (PFloat r) d = py_trunc r"
| "safe_int P (PStr s) d = (case int_of_str P s of Some i \<Rightarrow> i | None \<Rightarrow> d)"

section \<open>Strings\<close>

text \<open>
  \<^verbatim>\<open>str.upper()\<close> on the ASCII letters; a character outside \<^verbatim>\<open>a..z\<close> is left as it is
  (the model's characters are bytes).
\<close>

definition upper_char :: "char \<Rightarrow> char" where
  "upper_char c = (let n = (of_char c :: nat) in
     if 97 \<le> n \<and> n \<le> 122 then char_of (n - 32) else c)"

definition py_upper :: "string \<Rightarrow> string" where
  "py_upper s = map upper_char s"

text \<open>
  \<^verbatim>\<open>s.replace(old, new)\<close>: the occurrences of \<open>old\<close> are found from the left and do not
  overlap; an empty \<open>old\<close> matches before every character and at the end.
\<close>

function str_replace :: "string \<Rightarrow> string \<Rightarrow> string \<Rightarrow> string" where
  "str_replace old new s =
     (if old = [] then new @ concat (map (\<lambda>c. c # new) s)
      else if s = [] then []
      else if take (length old) s = old
        then new @ str_replace old new (drop (length old) s)
      else hd s # str_replace old new (tl s))"
  by pat_completeness auto
termination
  by (relation "measure (\<lambda>(old, new, s). length s)") auto

declare str_replace.simps [simp del]

section \<open>MASTER/state: symbols and sides\<close>

text \<open>\<^verbatim>\<open>normalize_symbol(raw_symbol, quota_asset="USDT")\<close>.\<close>

definition normalize_symbol :: "string \<Rightarrow> string \<Rightarrow> string" where
  "normalize_symbol raw_symbol quota_asset =
     (if raw_symbol = [] then []
      else let qa = py_upper quota_asset;
               s = str_replace '' '' [] (str_replace ''_'' [] (str_replace ''-'' [] (py_upper raw_symbol)))
           in str_replace qa (''_'' @ qa) s)"

datatype pos_side = LONG | SHORT

text \<open>The flip \<^verbatim>\<open>{"LONG": "SHORT", "SHORT": "LONG"}[pos_side]\<close>.\<close>

fun opposite :: "pos_side \<Rightarrow> pos_side" where
  "opposite LONG = SHORT"
| "opposite SHORT = LONG"

text \<open>
  \<^verbatim>\<open>SignalEvent\<close>.  \<open>ev_pos_side\<close> is \<^verbatim>\<open>Optional[PosSide]\<close>; \<open>raw\<close> is the frame's
  \<^verbatim>\<open>data\<close> object (\<^verbatim>\<open>ev.raw or {}\<close>: a missing one reads as the empty object).
\<close>

record signal_event =
  ev_symbol :: string
  ev_pos_side :: "pos_side option"
  event_type :: string
  ev_ts :: int
  raw :: pydict

section \<open>b\_context: position variables\<close>

datatype pv_state = CLOSED_PENDING

text \<open>
  A follower's PV dictionary: the keys of \<^verbatim>\<open>PosVarTemplate.base_template()\<close> and the two
  keys \<^verbatim>\<open>_entry_ts\<close> and \<^verbatim>\<open>_state\<close>, which the template leaves out (an absent key
  reads as \<open>None\<close>).
\<close>

record pos_var =
  in_position :: bool
  qty :: rat
  entry_price :: "rat option"
  avg_price :: "rat option"
  leverage :: "int option"
  margin_mode :: "int option"
  entry_ts :: "int option"
  state :: "pv_state option"

definition base_template :: pos_var where
  "base_template = \<lparr> in_position = False, qty = 0, entry_price = None, avg_price = None,
     leverage = None, margin_mode = None, entry_ts = None, state = None \<rparr>"

text \<open>\<^verbatim>\<open>pv.update(PosVarTemplate.base_template())\<close>: the template's keys are overwritten,
  the others stay.\<close>

definition update_base_template :: "'a pos_var_scheme \<Rightarrow> 'a pos_var_scheme" where
  "update_base_template pv = pv\<lparr> in_position := False, qty := 0, entry_price := None,
     avg_price := None, leverage := None, margin_mode := None \<rparr>"

text \<open>The master's PV: \<^verbatim>\<open>PosVarSetup.pos_vars_root_template()\<close> adds four keys.\<close>

record master_pv = pos_var +
  pending_buy :: bool
  last_exec_source :: "string option"
  attached_tp :: "rat option"
  attached_sl :: "rat option"

definition pos_vars_root_template :: master_pv where
  "pos_vars_root_template = \<lparr> in_position = False, qty = 0, entry_price = None, avg_price = None,
     leverage = None, margin_mode = None, entry_ts = None, state = None,
     pending_buy = False, last_exec_source = None, attached_tp = None, attached_sl = None \<rparr>"

text \<open>
  \<^verbatim>\<open>mc.pos_vars_root[symbol][pos_side]\<close>.  The per-symbol \<^verbatim>\<open>"spec"\<close> entry that
  \<^verbatim>\<open>set_pos_defaults\<close> also fills is left out: the translator never reads it.
\<close>

type_synonym pos_vars_root = "string \<times> pos_side \<rightharpoonup> master_pv"

text \<open>\<^verbatim>\<open>MasterPayload._ensure_pv\<close> (through \<^verbatim>\<open>PosVarSetup.set_pos_defaults\<close>).\<close>

definition ensure_pv :: "pos_vars_root \<Rightarrow> string \<Rightarrow> pos_side \<Rightarrow> pos_vars_root" where
  "ensure_pv pvr symbol pos_side =
     (case pvr (symbol, pos_side) of
        None \<Rightarrow> pvr((symbol, pos_side) \<mapsto> pos_vars_root_template)
      | Some pv \<Rightarrow> pvr)"

section \<open>MASTER/payload: the translator\<close>

datatype hl_event = Buy | Sell | Canceled
datatype hl_method = Market | Limit | Trigger
datatype sig_type = Copy | Manual

text \<open>
  \<^verbatim>\<open>MasterEvent\<close>.  \<open>mev_cid\<close> is the attribute \<^verbatim>\<open>_cid\<close> that the manual-close expander
  sets on its events (\<^verbatim>\<open>getattr(mev, "_cid", None)\<close>).
\<close>

record master_event =
  mev_event :: hl_event
  mev_method :: hl_method
  mev_symbol :: string
  mev_pos_side :: "pos_side option"
  mev_closed :: bool
  mev_payload :: "pydict option"
  mev_sig_type :: sig_type
  mev_ts :: int
  mev_cid :: "int option"

text \<open>
  \<^verbatim>\<open>_extract_exchange_ts\<close>.  First the body of its loop for one value: \<open>None\<close> when the
  test \<^verbatim>\<open>isinstance(val, (int, float)) and val > 0\<close> fails, else \<^verbatim>\<open>int(val)\<close> after
  \<^verbatim>\<open>val *= 1000\<close> for a value below \<open>10\<^sup>1\<^sup>0\<close>.  On an \<^verbatim>\<open>int\<close> (and on \<^verbatim>\<open>True\<close>) the
  product is exact; on a \<^verbatim>\<open>float\<close> it is a float product, cut by \<^verbatim>\<open>int\<close>.
\<close>

fun exchange_ms :: "pyval \<Rightarrow> int option" where
  "exchange_ms (PBool b) = (if b then Some 1000 else None)"
| "exchange_ms (PInt i) =
     (if i > 0 then Some (if i < 10000000000 then i * 1000 else i) else None)"
| "exchange_ms (PFloat r) =
     (if r > 0 then Some (py_trunc (if r < 10000000000 then float_times r 1000 else r))
      else None)"
| "exchange_ms PNone = None"
| "exchange_ms (PStr s) = None"

text \<open>The loop over the keys: the first value that passes the test decides.\<close>

fun first_exchange_ts :: "pydict \<Rightarrow> string list \<Rightarrow> int option" where
  "first_exchange_ts r [] = None"
| "first_exchange_ts r (key # keys) =
     (case exchange_ms (dget r key) of
        Some t \<Rightarrow> Some t
      | None \<Rightarrow> first_exchange_ts r keys)"

text \<open>The test \<^verbatim>\<open>isinstance(val, (int, float)) and val > 0\<close>.\<close>

definition positive_number :: "pyval \<Rightarrow> bool" where
  "positive_number v = (case num_of v of Some x \<Rightarrow> x > 0 | None \<Rightarrow> False)"

definition ts_keys :: "string list" where
  "ts_keys = [''updateTime'', ''createTime'', ''timestamp'', ''time'', ''ts'']"

definition extract_exchange_ts :: "signal_event \<Rightarrow> int option" where
  "extract_exchange_ts ev_raw = first_exchange_ts (raw ev_raw) ts_keys"

text \<open>
  The translator's state: the master's PVs, the \<^verbatim>\<open>_pending\<close> list and the set
  \<^verbatim>\<open>_limit_intents\<close>.  The set is kept as a list without order; membership is by
  Python equality.
\<close>

type_synonym pyset = "pyval list"

definition set_member :: "pyval \<Rightarrow> pyset \<Rightarrow> bool" where
  "set_member v S = list_ex (\<lambda>x. py_eq x v) S"

definition set_add :: "pyval \<Rightarrow> pyset \<Rightarrow> pyset" where
  "set_add v S = (if set_member v S then S else S @ [v])"

definition set_discard :: "pyval \<Rightarrow> pyset \<Rightarrow> pyset" where
  "set_discard v S = filter (\<lambda>x. \<not> py_eq x v) S"

record translator =
  pos_vars_root :: pos_vars_root
  pending :: "master_event list"
  limit_intents :: pyset

text \<open>\<^verbatim>\<open>MasterPayload._base_payload\<close>.\<close>

definition base_payload :: "parsers \<Rightarrow> pydict \<Rightarrow> pydict" where
  "base_payload P r =
     [''order_id'' \<mapsto> dget r ''orderId'',
      ''qty'' \<mapsto> PFloat (safe_float P (dget r ''vol'') 0),
      ''price'' \<mapsto> PFloat (safe_float P
          (py_or (py_or (dget r ''price'') (dget r ''dealAvgPrice'')) (dget r ''avgPrice'')) 0),
      ''leverage'' \<mapsto> dget r ''leverage'',
      ''open_type'' \<mapsto> dget r ''openType'',
      ''reduce_only'' \<mapsto> PBool (truthy (dget r ''reduceOnly''))]"

text \<open>
  \<^verbatim>\<open>MasterPayload._inject_oco_from_intent\<close>: the pending TP/SL of the PV go into the
  payload once and are cleared.  Returns the payload and the PVs.
\<close>

definition inject_oco_from_intent ::
  "pydict \<Rightarrow> pos_vars_root \<Rightarrow> string \<Rightarrow> pos_side \<Rightarrow> pydict \<times> pos_vars_root" where
  "inject_oco_from_intent payload pvr symbol pos_side =
     (case pvr (symbol, pos_side) of
        None \<Rightarrow> (payload, pvr)
      | Some pv \<Rightarrow>
          let p1 = (case attached_tp pv of Some tp \<Rightarrow> payload(''tp_price'' \<mapsto> PFloat tp)
                                         | None \<Rightarrow> payload);
              p2 = (case attached_sl pv of Some sl \<Rightarrow> p1(''sl_price'' \<mapsto> PFloat sl)
                                         | None \<Rightarrow> p1)
          in (p2, pvr((symbol, pos_side) \<mapsto> pv\<lparr> attached_tp := None, attached_sl := None \<rparr>)))"

text \<open>
  \<^verbatim>\<open>MasterPayload._emit\<close>.  \<open>clock\<close> is what \<^verbatim>\<open>now()\<close> returns during the call;
  every call site passes the event as \<^verbatim>\<open>ev_raw\<close> and leaves \<^verbatim>\<open>sig_type\<close> at
  \<^verbatim>\<open>"copy"\<close>.
\<close>

definition emit_ts :: "int \<Rightarrow> int option \<Rightarrow> int \<Rightarrow> int" where
  "emit_ts clock exec_ts tech_ts =
     (case exec_ts of
        Some e \<Rightarrow> if e \<noteq> 0 \<and> tech_ts \<noteq> 0 then min e tech_ts else clock
      | None \<Rightarrow> clock)"

definition emit ::
  "int \<Rightarrow> translator \<Rightarrow> hl_event \<Rightarrow> hl_method \<Rightarrow> string \<Rightarrow> pos_side \<Rightarrow> bool \<Rightarrow> pydict
     \<Rightarrow> signal_event \<Rightarrow> translator" where
  "emit clock T event meth symbol pos_side is_closed payload ev_raw =
     (let exec_ts = extract_exchange_ts ev_raw;
          tech_ts = ev_ts ev_raw;
          ts = emit_ts clock exec_ts tech_ts;
          payload' = payload(''exec_ts'' \<mapsto> (case exec_ts of Some e \<Rightarrow> PInt e | None \<Rightarrow> PNone))
      in T\<lparr> pending := pending T @
           [\<lparr> mev_event = event, mev_method = meth, mev_symbol = symbol,
              mev_pos_side = Some pos_side, mev_closed = is_closed, mev_payload = Some payload',
              mev_sig_type = Copy, mev_ts = ts, mev_cid = None \<rparr>] \<rparr>)"

text \<open>\<^verbatim>\<open>MasterPayload._route\<close>, branch by branch.\<close>

definition route_oco :: "parsers \<Rightarrow> translator \<Rightarrow> string \<Rightarrow> pos_side \<Rightarrow> pydict \<Rightarrow> translator" where
  "route_oco P T symbol pos_side r =
     (let pvr = ensure_pv (pos_vars_root T) symbol pos_side;
          tp = safe_float P (dget r ''tp'') 0;
          sl = safe_float P (dget r ''sl'') 0
      in case pvr (symbol, pos_side) of
           None \<Rightarrow> T\<lparr> pos_vars_root := pvr \<rparr>
         | Some pv \<Rightarrow> T\<lparr> pos_vars_root :=
             pvr((symbol, pos_side) \<mapsto> pv\<lparr> attached_tp := Some tp, attached_sl := Some sl \<rparr>) \<rparr>)"

definition route_market_filled ::
  "parsers \<Rightarrow> int \<Rightarrow> translator \<Rightarrow> signal_event \<Rightarrow> string \<Rightarrow> pos_side \<Rightarrow> translator" where
  "route_market_filled P clock T ev symbol pos_side =
     (let is_close = truthy (dget (raw ev) ''reduceOnly'');
          emit_side = (if is_close then opposite pos_side else pos_side);
          (payload, pvr) = inject_oco_from_intent (base_payload P (raw ev)) (pos_vars_root T)
                               symbol emit_side
      in emit clock (T\<lparr> pos_vars_root := pvr \<rparr>) (if is_close then Sell else Buy) Market
           symbol emit_side is_close payload ev)"

definition route_limit_filled ::
  "parsers \<Rightarrow> int \<Rightarrow> translator \<Rightarrow> signal_event \<Rightarrow> string \<Rightarrow> pos_side \<Rightarrow> translator" where
  "route_limit_filled P clock T ev symbol pos_side =
     (let oid = dget (raw ev) ''orderId''
      in if set_member oid (limit_intents T)
         then T\<lparr> limit_intents := set_discard oid (limit_intents T) \<rparr>
         else let (payload, pvr) = inject_oco_from_intent (base_payload P (raw ev))
                                      (pos_vars_root T) symbol pos_side
              in emit clock (T\<lparr> pos_vars_root := pvr \<rparr>) Buy Limit symbol pos_side False
                   payload ev)"

definition route_limit_placed ::
  "parsers \<Rightarrow> int \<Rightarrow> translator \<Rightarrow> signal_event \<Rightarrow> string \<Rightarrow> pos_side \<Rightarrow> translator" where
  "route_limit_placed P clock T ev symbol pos_side =
     (let oid = dget (raw ev) ''orderId'';
          T1 = (if truthy oid then T\<lparr> limit_intents := set_add oid (limit_intents T) \<rparr> else T)
      in emit clock T1 Buy Limit symbol pos_side False (base_payload P (raw ev)) ev)"

definition route_trigger_filled ::
  "parsers \<Rightarrow> int \<Rightarrow> translator \<Rightarrow> signal_event \<Rightarrow> string \<Rightarrow> pos_side \<Rightarrow> translator" where
  "route_trigger_filled P clock T ev symbol pos_side =
     (let reduce_only = truthy (dget (raw ev) ''reduceOnly'');
          is_sell = (\<not> py_eq (dget (raw ev) ''side'') (PInt 1)
                     \<and> \<not> py_eq (dget (raw ev) ''side'') (PInt 3));
          emit_side = (if reduce_only then opposite pos_side else pos_side);
          (payload, pvr) = inject_oco_from_intent (base_payload P (raw ev)) (pos_vars_root T)
                               symbol emit_side
      in emit clock (T\<lparr> pos_vars_root := pvr \<rparr>) (if is_sell then Sell else Buy) Trigger
           symbol emit_side reduce_only payload ev)"

definition route_cancel ::
  "int \<Rightarrow> translator \<Rightarrow> signal_event \<Rightarrow> string \<Rightarrow> pos_side \<Rightarrow> translator" where
  "route_cancel clock T ev symbol pos_side =
     (let oid = dget (raw ev) ''orderId'';
          T1 = (if truthy oid then T\<lparr> limit_intents := set_discard oid (limit_intents T) \<rparr> else T)
      in emit clock T1 Canceled Limit symbol pos_side False [''order_id'' \<mapsto> oid] ev)"

definition route :: "parsers \<Rightarrow> int \<Rightarrow> translator \<Rightarrow> signal_event \<Rightarrow> translator" where
  "route P clock T ev =
     (let et = event_type ev; symbol = ev_symbol ev
      in case ev_pos_side ev of
           None \<Rightarrow> T
         | Some pos_side \<Rightarrow>
             if symbol = [] then T
             else if et = ''oco_attached'' then route_oco P T symbol pos_side (raw ev)
             else if et = ''market_filled'' then route_market_filled P clock T ev symbol pos_side
             else if et = ''limit_filled'' then route_limit_filled P clock T ev symbol pos_side
             else if et = ''limit_placed'' then route_limit_placed P clock T ev symbol pos_side
             else if et = ''trigger_filled'' then route_trigger_filled P clock T ev symbol pos_side
             else if et = ''order_cancelled'' \<or> et = ''order_invalid''
               then route_cancel clock T ev symbol pos_side
             else T)"

text \<open>
  The loop \<^verbatim>\<open>for ev in events: self._route(ev)\<close> of \<^verbatim>\<open>MasterPayload.run\<close>; each event
  comes with the clock reading of its call.
\<close>

fun route_all :: "parsers \<Rightarrow> translator \<Rightarrow> (int \<times> signal_event) list \<Rightarrow> translator" where
  "route_all P T [] = T"
| "route_all P T ((clock, ev) # evs) = route_all P (route P clock T ev) evs"

text \<open>
  The events that take the order id \<open>L\<close> out of \<^verbatim>\<open>_limit_intents\<close>: a routed
  \<^verbatim>\<open>limit_filled\<close>, \<^verbatim>\<open>order_cancelled\<close> or \<^verbatim>\<open>order_invalid\<close> whose order id equals \<open>L\<close>.
\<close>

definition consumes_intent :: "pyval \<Rightarrow> signal_event \<Rightarrow> bool" where
  "consumes_intent L ev =
     (ev_symbol ev \<noteq> [] \<and> ev_pos_side ev \<noteq> None
      \<and> (event_type ev = ''limit_filled'' \<or> event_type ev = ''order_cancelled''
           \<or> event_type ev = ''order_invalid'')
      \<and> py_eq (dget (raw ev) ''orderId'') L)"

section \<open>API/MX/client: open positions\<close>

text \<open>
  \<^verbatim>\<open>ApiResponse\<close> comes from the exchange library, which is not part of the sources;
  only the two attributes that \<^verbatim>\<open>fetch_positions\<close> reads are modelled.  An element of
  \<open>data\<close> is a JSON object, or \<open>None\<close> for anything that is not a \<^verbatim>\<open>dict\<close>.
\<close>

type_synonym raw_position = "pydict option"

record api_response =
  success :: bool
  data :: "raw_position list option"

text \<open>\<^verbatim>\<open>MexcClient.fetch_positions\<close>; the argument is what \<^verbatim>\<open>get_open_positions\<close>
  returned.\<close>

definition fetch_positions :: "api_response option \<Rightarrow> raw_position list" where
  "fetch_positions response =
     (case response of
        None \<Rightarrow> []
      | Some r \<Rightarrow>
          (case data r of
             None \<Rightarrow> []
           | Some d \<Rightarrow> if success r \<and> d \<noteq> [] then d else []))"

section \<open>COPY/pv\_fsm: the position monitor\<close>

type_synonym position_vars = "(string \<times> (pos_side \<times> pos_var) list) list"

record pos_info =
  pi_symbol :: pyval
  pi_pos_side :: pos_side
  pi_qty :: rat
  pi_entry_price :: rat
  pi_avg_price :: rat
  pi_leverage :: int
  pi_margin_mode :: int

text \<open>\<^verbatim>\<open>PosMonitorFSM.unpack\<close>.\<close>

definition unpack :: "parsers \<Rightarrow> raw_position \<Rightarrow> pos_info option" where
  "unpack P position =
     (case position of
        None \<Rightarrow> None
      | Some d \<Rightarrow>
          if \<not> py_eq (dget d ''state'') (PInt 1) then None
          else
            let symbol = dget d ''symbol'';
                pos_type_int = dget d ''positionType'';
                vol = \<bar>safe_float P (dget d ''holdVol'') 0\<bar>
            in if \<not> truthy symbol \<or> vol \<le> 0 then None
               else if py_eq pos_type_int (PInt 1) \<or> py_eq pos_type_int (PInt 2) then
                 Some \<lparr> pi_symbol = symbol,
                        pi_pos_side = (if py_eq pos_type_int (PInt 1) then LONG else SHORT),
                        pi_qty = vol,
                        pi_entry_price = safe_float P (dget d ''openAvgPrice'') 0,
                        pi_avg_price = safe_float P (dget d ''holdAvgPrice'') 0,
                        pi_leverage = safe_int P (dget d ''leverage'') 1,
                        pi_margin_mode = safe_int P (dget d ''openType'') 1 \<rparr>
               else None)"

text \<open>
  The dictionary \<^verbatim>\<open>active\<close>, keyed by \<^verbatim>\<open>(symbol, pos_side)\<close>; a later position
  overwrites an earlier one.  The PVs are keyed by strings, so an entry whose symbol is
  not a string is never found and is not stored.
\<close>

fun build_active ::
  "parsers \<Rightarrow> raw_position list \<Rightarrow> (string \<times> pos_side \<rightharpoonup> pos_info)
     \<Rightarrow> (string \<times> pos_side \<rightharpoonup> pos_info)" where
  "build_active P [] active = active"
| "build_active P (r # rs) active =
     (case unpack P r of
        None \<Rightarrow> build_active P rs active
      | Some info \<Rightarrow>
          (case pi_symbol info of
             PStr symb \<Rightarrow> build_active P rs (active((symb, pi_pos_side info) \<mapsto> info))
           | _ \<Rightarrow> build_active P rs active))"

text \<open>The body of the loop over the PVs: one PV against the snapshot.\<close>

definition position_not_found :: "pos_var \<Rightarrow> pos_var" where
  "position_not_found pv =
     (if in_position pv
      then (update_base_template pv)\<lparr> entry_ts := entry_ts pv, state := Some CLOSED_PENDING \<rparr>
      else pv)"

definition apply_snapshot ::
  "int \<Rightarrow> (string \<times> pos_side \<rightharpoonup> pos_info) \<Rightarrow> string \<Rightarrow> pos_side \<Rightarrow> pos_var \<Rightarrow> pos_var" where
  "apply_snapshot now_ts active symbol pos_side pv =
     (let was_in_position = in_position pv
      in case active (symbol, pos_side) of
           Some info \<Rightarrow>
             let is_in_position = (pi_qty info > 0)
             in if is_in_position \<and> \<not> was_in_position then
                  pv\<lparr> in_position := True, qty := pi_qty info,
                      entry_price := Some (pi_entry_price info),
                      avg_price := Some (pi_avg_price info),
                      leverage := Some (pi_leverage info),
                      margin_mode := Some (pi_margin_mode info),
                      entry_ts := Some now_ts \<rparr>
                else if is_in_position \<and> was_in_position then
                  pv\<lparr> in_position := True, qty := pi_qty info,
                      avg_price := Some (pi_avg_price info),
                      leverage := Some (pi_leverage info),
                      margin_mode := Some (pi_margin_mode info) \<rparr>
                else position_not_found pv
         | None \<Rightarrow> position_not_found pv)"

text \<open>
  \<^verbatim>\<open>PosMonitorFSM.refresh\<close>: \<open>positions\<close> is what the \<^verbatim>\<open>fetch_positions\<close> callable
  returned and \<open>now_ts\<close> the clock.  An exception of the callable leaves the method
  before anything is written.
\<close>

definition refresh ::
  "parsers \<Rightarrow> int \<Rightarrow> raw_position list option \<Rightarrow> position_vars \<Rightarrow> position_vars" where
  "refresh P now_ts positions pvs =
     (case positions of
        None \<Rightarrow> pvs
      | Some ps \<Rightarrow>
          let active = build_active P ps Map.empty
          in map (\<lambda>(symbol, sides).
                 (symbol, map (\<lambda>(pos_side, pv).
                    (pos_side, apply_snapshot now_ts active symbol pos_side pv)) sides)) pvs)"

text \<open>
  The monitor as the executor builds it,
  \<^verbatim>\<open>PosMonitorFSM(rt["position_vars"], client.fetch_positions)\<close>.
\<close>

definition client_refresh ::
  "parsers \<Rightarrow> int \<Rightarrow> api_response option \<Rightarrow> position_vars \<Rightarrow> position_vars" where
  "client_refresh P now_ts response pvs = refresh P now_ts (Some (fetch_positions response)) pvs"

text \<open>\<^verbatim>\<open>get_cid_symbol_pos\<close>: a missing PV is created from the base template.\<close>

fun ensure_side :: "pos_side \<Rightarrow> (pos_side \<times> pos_var) list \<Rightarrow> (pos_side \<times> pos_var) list" where
  "ensure_side d [] = [(d, base_template)]"
| "ensure_side d ((d', pv) # sides) =
     (if d' = d then (d', pv) # sides else (d', pv) # ensure_side d sides)"

fun get_cid_symbol_pos :: "string \<Rightarrow> pos_side \<Rightarrow> position_vars \<Rightarrow> position_vars" where
  "get_cid_symbol_pos symb d [] = [(symb, [(d, base_template)])]"
| "get_cid_symbol_pos symb d ((symb', sides) # pvs) =
     (if symb' = symb then (symb', ensure_side d sides) # pvs
      else (symb', sides) # get_cid_symbol_pos symb d pvs)"

text \<open>
  The PV maps a follower can have: empty at start, then PVs created from the base
  template and refreshes, in any order and with any answers of the exchange.
\<close>

inductive pv_reachable :: "parsers \<Rightarrow> position_vars \<Rightarrow> bool" for P :: parsers where
  init: "pv_reachable P []"
| create: "pv_reachable P pvs \<Longrightarrow> pv_reachable P (get_cid_symbol_pos symb d pvs)"
| refreshed: "pv_reachable P pvs \<Longrightarrow> pv_reachable P (refresh P now_ts positions pvs)"

definition pv_invariant :: "pos_var \<Rightarrow> bool" where
  "pv_invariant pv = ((\<not> in_position pv \<longrightarrow> qty pv = 0) \<and> (in_position pv \<longrightarrow> qty pv > 0))"

definition all_pvs :: "position_vars \<Rightarrow> pos_var list" where
  "all_pvs pvs = concat (map (\<lambda>(symbol, sides). map snd sides) pvs)"

section \<open>COPY/state: the margin clamp\<close>

text \<open>
  The \<^verbatim>\<open>spec\<close> dictionary of a symbol, with the three keys the clamp reads; \<open>None\<close> is a
  missing key or a \<^verbatim>\<open>None\<close> value.
\<close>

record symbol_spec =
  contract_size :: "rat option"
  vol_unit :: "rat option"
  contract_precision :: "int option"

text \<open>The tail of the clamp: margin back to contracts, snapped to the volume grid.\<close>

definition clamp_snap :: "rat \<Rightarrow> rat \<Rightarrow> int \<Rightarrow> rat \<Rightarrow> rat \<Rightarrow> int \<Rightarrow> rat" where
  "clamp_snap margin pr lev cs vu precision =
     (let base_qty = (margin * of_int lev) / pr;
          contracts1 = base_qty / cs;
          contracts2 = of_int \<lfloor>contracts1 / vu\<rfloor> * vu;
          contracts3 = py_round contracts2 precision
      in if contracts3 \<le> 0 then 0 else contracts3)"

text \<open>
  \<^verbatim>\<open>CopyOrderIntentFactory._clamp_by_max_margin\<close>.  \<open>contracts\<close> is a finite number,
  so the first test of the source never fires; \<open>spec\<close> is \<open>None\<close> for a missing or
  empty dictionary.
\<close>

definition clamp_by_max_margin ::
  "rat \<Rightarrow> rat \<Rightarrow> rat option \<Rightarrow> int \<Rightarrow> rat \<Rightarrow> rat \<Rightarrow> symbol_spec option \<Rightarrow> rat" where
  "clamp_by_max_margin contracts max_margin price lev coef rnd spec =
     (case price of
        None \<Rightarrow> contracts
      | Some pr \<Rightarrow>
          if pr = 0 \<or> pr \<le> 0 \<or> lev = 0 \<or> lev \<le> 0 then contracts
          else
            (case spec of
               None \<Rightarrow> contracts
             | Some sp \<Rightarrow>
                 (case (contract_size sp, vol_unit sp, contract_precision sp) of
                    (Some cs, Some vu, Some precision) \<Rightarrow>
                      if cs = 0 \<or> vu = 0 then contracts
                      else
                        let margin0 = (contracts * cs * pr) / of_int lev;
                            margin1 = (if coef \<noteq> 0 \<and> coef \<noteq> 1 then margin0 * \<bar>coef\<bar>
                                       else margin0);
                            margin2 = (if rnd \<noteq> 0 \<and> rnd \<noteq> 100 then margin1 * \<bar>rnd / 100\<bar>
                                       else margin1)
                        in if margin2 \<noteq> 0 \<and> max_margin \<noteq> 0 \<and> margin2 \<ge> max_margin
                             then clamp_snap \<bar>max_margin\<bar> pr lev cs vu precision
                           else if margin2 = 0 then 0
                           else clamp_snap margin2 pr lev cs vu precision
                  | _ \<Rightarrow> contracts)))"

section \<open>COPY/exequter: cancelling a copied order\<close>

text \<open>
  \<^verbatim>\<open>orders_vars[symbol][pos_side]\<close>: under \<^verbatim>\<open>"limit"\<close> and \<^verbatim>\<open>"trigger"\<close> a dictionary
  from the master's order id to the record of the follower's order.  A dictionary is a
  list of entries, looked up by Python equality of the key; \<open>None\<close> is a missing
  \<^verbatim>\<open>"limit"\<close> or \<^verbatim>\<open>"trigger"\<close> key.
\<close>

record order_rec =
  copy_order_id :: pyval
  order_price :: pyval
  order_qty :: rat
  status :: string

type_synonym order_map = "(pyval \<times> order_rec) list"

record side_root =
  limit_root :: "order_map option"
  trigger_root :: "order_map option"

fun order_lookup :: "order_map \<Rightarrow> pyval \<Rightarrow> order_rec option" where
  "order_lookup [] oid = None"
| "order_lookup ((k, r) # m) oid = (if py_eq k oid then Some r else order_lookup m oid)"

definition order_remove :: "order_map \<Rightarrow> pyval \<Rightarrow> order_map" where
  "order_remove m oid = filter (\<lambda>(k, r). \<not> py_eq k oid) m"

datatype api_call =
    CancelLimitOrders "pyval list"
  | CancelTriggerOrder "pyval list" string

datatype log_line =
    CloseIntent "int list"
  | CancelSkip string "pos_side option"
  | LimitCancelMiss string "pos_side option" pyval
  | LimitCancelFailed string "pos_side option" pyval
  | LimitCanceled string "pos_side option" pyval
  | TriggerCancelMiss string "pos_side option" pyval
  | TriggerCancelFailed string "pos_side option" pyval
  | TriggerCanceled string "pos_side option" pyval

text \<open>
  What the executor touches: the order maps of the event's symbol and side, the UI log
  \<^verbatim>\<open>mc.log_events\<close> and, as a trace, the calls made on the exchange client.
\<close>

record exec_state =
  orders :: side_root
  log_events :: "(int \<times> log_line) list"
  api_calls :: "api_call list"

datatype py_error = AttributeError

text \<open>
  \<^verbatim>\<open>CopyExequter.cancel_executor_\<close>.  \<open>reply_ok\<close> says whether the exchange answered the
  cancel with \<^verbatim>\<open>success\<close>.  An event without a payload makes
  \<^verbatim>\<open>mev.payload.get\<close> raise.
\<close>

definition cancel_one ::
  "int \<Rightarrow> master_event \<Rightarrow> bool \<Rightarrow> exec_state \<Rightarrow> pyval \<Rightarrow> order_map option
     \<Rightarrow> (order_map option \<Rightarrow> side_root) \<Rightarrow> (pyval \<Rightarrow> api_call)
     \<Rightarrow> (string \<Rightarrow> pos_side option \<Rightarrow> pyval \<Rightarrow> log_line)
     \<Rightarrow> (string \<Rightarrow> pos_side option \<Rightarrow> pyval \<Rightarrow> log_line)
     \<Rightarrow> (string \<Rightarrow> pos_side option \<Rightarrow> pyval \<Rightarrow> log_line) \<Rightarrow> exec_state" where
  "cancel_one cid mev reply_ok st master_oid omap put call miss failed canceled =
     (let m = (case omap of None \<Rightarrow> [] | Some m \<Rightarrow> m);
          rec = order_lookup m master_oid;
          st1 = (case omap of None \<Rightarrow> st
                 | Some m \<Rightarrow> st\<lparr> orders := put (Some (order_remove m master_oid)) \<rparr>)
      in case rec of
           None \<Rightarrow> st1\<lparr> log_events := log_events st1 @
                       [(cid, miss (mev_symbol mev) (mev_pos_side mev) master_oid)] \<rparr>
         | Some r \<Rightarrow>
             let copy_oid = copy_order_id r
             in if \<not> truthy copy_oid then st1
                else
                  let st2 = st1\<lparr> api_calls := api_calls st1 @ [call copy_oid] \<rparr>
                  in st2\<lparr> log_events := log_events st2 @
                       [(cid, (if reply_ok then canceled else failed)
                                (mev_symbol mev) (mev_pos_side mev) copy_oid)] \<rparr>)"

definition cancel_executor ::
  "int \<Rightarrow> master_event \<Rightarrow> bool \<Rightarrow> exec_state \<Rightarrow> py_error + exec_state" where
  "cancel_executor cid mev reply_ok st =
     (case mev_payload mev of
        None \<Rightarrow> Inl AttributeError
      | Some payload \<Rightarrow>
          let master_oid = dget payload ''order_id''
          in if \<not> truthy master_oid then
               Inr (st\<lparr> log_events := log_events st @
                      [(cid, CancelSkip (mev_symbol mev) (mev_pos_side mev))] \<rparr>)
             else
               (case mev_method mev of
                  Limit \<Rightarrow>
                    Inr (cancel_one cid mev reply_ok st master_oid (limit_root (orders st))
                          (\<lambda>m. (orders st)\<lparr> limit_root := m \<rparr>)
                          (\<lambda>copy_oid. CancelLimitOrders [copy_oid])
                          LimitCancelMiss LimitCancelFailed LimitCanceled)
                | Trigger \<Rightarrow>
                    Inr (cancel_one cid mev reply_ok st master_oid (trigger_root (orders st))
                          (\<lambda>m. (orders st)\<lparr> trigger_root := m \<rparr>)
                          (\<lambda>copy_oid. CancelTriggerOrder [copy_oid] (mev_symbol mev))
                          TriggerCancelMiss TriggerCancelFailed TriggerCanceled)
                | Market \<Rightarrow> Inr st))"

text \<open>The same event handled a second time, after the first handling has returned.\<close>

definition cancel_twice ::
  "int \<Rightarrow> master_event \<Rightarrow> bool \<Rightarrow> bool \<Rightarrow> exec_state \<Rightarrow> py_error + exec_state" where
  "cancel_twice cid mev reply1 reply2 st =
     (case cancel_executor cid mev reply1 st of
        Inl e \<Rightarrow> Inl e
      | Inr st1 \<Rightarrow> cancel_executor cid mev reply2 st1)"

text \<open>The order map that a cancel of the given method works on.\<close>

definition method_root :: "hl_method \<Rightarrow> side_root \<Rightarrow> order_map option" where
  "method_root meth sr =
     (case meth of Limit \<Rightarrow> limit_root sr | Trigger \<Rightarrow> trigger_root sr | Market \<Rightarrow> None)"

text \<open>
  The follower's order recorded for the master's order id, when there is one and it has
  a non-empty \<^verbatim>\<open>copy_order_id\<close>.
\<close>

definition recorded_copy :: "hl_method \<Rightarrow> side_root \<Rightarrow> pyval \<Rightarrow> order_rec option" where
  "recorded_copy meth sr oid =
     (case method_root meth sr of
        None \<Rightarrow> None
      | Some m \<Rightarrow>
          (case order_lookup m oid of
             None \<Rightarrow> None
           | Some r \<Rightarrow> if truthy (copy_order_id r) then Some r else None))"

section \<open>COPY/cmd and COPY/copy: manual close\<close>

record runtime =
  init_state :: string
  network_ready :: bool
  position_vars :: position_vars

text \<open>
  The part of \<^verbatim>\<open>MainContext\<close> that a manual close touches.  \<open>out_queue\<close> is the
  translator's queue, \<open>None\<close> while \<^verbatim>\<open>mc.master_payload\<close> is not set.
\<close>

record main_context =
  copy_runtime_states :: "int \<rightharpoonup> runtime"
  cmd_ids :: "int list"
  ui_log :: "(int \<times> log_line) list"
  out_queue :: "master_event list option"

text \<open>\<^verbatim>\<open>CopyState.ensure_copy_state\<close>.\<close>

definition ensure_copy_state :: "main_context \<Rightarrow> int \<Rightarrow> runtime option" where
  "ensure_copy_state mc cid =
     (case copy_runtime_states mc cid of
        None \<Rightarrow> None
      | Some rt \<Rightarrow>
          if init_state rt \<noteq> ''READY'' then None
          else if \<not> network_ready rt then None
          else Some rt)"

text \<open>\<^verbatim>\<open>CmdDestrib.on_close\<close>; \<open>stop_flag\<close> and \<open>now_ts\<close> are what the two calls return.\<close>

definition synthetic_close :: "int \<Rightarrow> master_event" where
  "synthetic_close now_ts =
     \<lparr> mev_event = Sell, mev_method = Market, mev_symbol = ''ALL OPENED SYMBOLS'',
       mev_pos_side = None, mev_closed = True, mev_payload = None, mev_sig_type = Manual,
       mev_ts = now_ts, mev_cid = None \<rparr>"

definition on_close :: "bool \<Rightarrow> int \<Rightarrow> int list \<Rightarrow> main_context \<Rightarrow> main_context" where
  "on_close stop_flag now_ts ids mc =
     (if stop_flag then mc
      else
        let ids1 = filter (\<lambda>cid. cid \<noteq> 0) ids
        in if ids1 = [] then mc
           else
             let mc1 = mc\<lparr> ui_log := ui_log mc @ [(0, CloseIntent ids1)], cmd_ids := ids1 \<rparr>
             in case out_queue mc1 of
                  None \<Rightarrow> mc1
                | Some q \<Rightarrow> mc1\<lparr> out_queue := Some (q @ [synthetic_close now_ts]) \<rparr>)"

text \<open>\<^verbatim>\<open>CopyDestrib._expand_manual_close\<close>: the three nested loops.\<close>

definition close_event :: "int \<Rightarrow> int \<Rightarrow> string \<Rightarrow> pos_side \<Rightarrow> pos_var \<Rightarrow> master_event" where
  "close_event ts cid symbol pos_side pv =
     \<lparr> mev_event = Sell, mev_method = Market, mev_symbol = symbol,
       mev_pos_side = Some pos_side, mev_closed = True,
       mev_payload = Some
         [''qty'' \<mapsto> PFloat (qty pv),
          ''reduce_only'' \<mapsto> PBool True,
          ''leverage'' \<mapsto> (case leverage pv of Some l \<Rightarrow> PInt l | None \<Rightarrow> PNone),
          ''open_type'' \<mapsto> (case margin_mode pv of Some m \<Rightarrow> PInt m | None \<Rightarrow> PNone)],
       mev_sig_type = Manual, mev_ts = ts, mev_cid = Some cid \<rparr>"

definition expand_sides ::
  "int \<Rightarrow> int \<Rightarrow> string \<Rightarrow> (pos_side \<times> pos_var) list \<Rightarrow> master_event list" where
  "expand_sides ts cid symbol sides =
     concat (map (\<lambda>(pos_side, pv).
        if \<not> in_position pv then []
        else if qty pv = 0 \<or> qty pv \<le> 0 then []
        else [close_event ts cid symbol pos_side pv]) sides)"

definition expand_pvs :: "int \<Rightarrow> int \<Rightarrow> position_vars \<Rightarrow> master_event list" where
  "expand_pvs ts cid pvs =
     concat (map (\<lambda>(symbol, sides). expand_sides ts cid symbol sides) pvs)"

definition expand_manual_close :: "main_context \<Rightarrow> master_event \<Rightarrow> master_event list" where
  "expand_manual_close mc mev =
     concat (map (\<lambda>cid.
        case ensure_copy_state mc cid of
          None \<Rightarrow> []
        | Some rt \<Rightarrow> expand_pvs (mev_ts mev) cid (position_vars rt)) (cmd_ids mc))"

text \<open>
  The manual branch of \<^verbatim>\<open>CopyDestrib.signal_loop\<close>: the events handed to the executor,
  and the context with \<^verbatim>\<open>cmd_ids\<close> cleared.
\<close>

definition dispatch_manual :: "main_context \<Rightarrow> master_event \<Rightarrow> master_event list \<times> main_context" where
  "dispatch_manual mc mev = (expand_manual_close mc mev, mc\<lparr> cmd_ids := [] \<rparr>)"

text \<open>
  One turn of the second loop of \<^verbatim>\<open>CopyDestrib.signal_loop\<close>: the event at the head of
  the translator's queue is taken; a manual one is expanded and \<^verbatim>\<open>cmd_ids\<close> is cleared,
  any other is handed to the executor as it is.  \<open>None\<close> when there is no queue or nothing
  in it (\<^verbatim>\<open>out_queue.get()\<close> then waits).  The first loop of \<^verbatim>\<open>signal_loop\<close> takes nothing
  from the queue while the master's trading is not enabled.
\<close>

definition signal_loop_step :: "main_context \<Rightarrow> (master_event list \<times> main_context) option" where
  "signal_loop_step mc =
     (case out_queue mc of
        None \<Rightarrow> None
      | Some [] \<Rightarrow> None
      | Some (mev # q) \<Rightarrow>
          let mc1 = mc\<lparr> out_queue := Some q \<rparr>
          in if mev_sig_type mev = Manual then Some (dispatch_manual mc1 mev)
             else Some ([mev], mc1))"

text \<open>Reading a PV map as the dictionary it stands for.\<close>

definition pv_lookup :: "position_vars \<Rightarrow> string \<Rightarrow> pos_side \<Rightarrow> pos_var option" where
  "pv_lookup pvs symbol pos_side =
     (case map_of pvs symbol of None \<Rightarrow> None | Some sides \<Rightarrow> map_of sides pos_side)"

definition dict_keys_distinct :: "position_vars \<Rightarrow> bool" where
  "dict_keys_distinct pvs =
     (distinct (map fst pvs) \<and> list_all (\<lambda>(symbol, sides). distinct (map fst sides)) pvs)"

text \<open>
  The PV of follower \<open>cid\<close> for a symbol and side, when the follower's runtime is ready and
  the PV is in position with a positive quantity.
\<close>

definition open_pv :: "main_context \<Rightarrow> int \<Rightarrow> string \<Rightarrow> pos_side \<Rightarrow> pos_var option" where
  "open_pv mc cid symbol pos_side =
     (case ensure_copy_state mc cid of
        None \<Rightarrow> None
      | Some rt \<Rightarrow>
          (case pv_lookup (position_vars rt) symbol pos_side of
             None \<Rightarrow> None
           | Some pv \<Rightarrow> if in_position pv \<and> qty pv > 0 then Some pv else None))"

text \<open>The PV of follower \<open>cid\<close> for a symbol and side, whatever the state of its runtime.\<close>

definition follower_pv :: "main_context \<Rightarrow> int \<Rightarrow> string \<Rightarrow> pos_side \<Rightarrow> pos_var option" where
  "follower_pv mc cid symbol pos_side =
     (case copy_runtime_states mc cid of
        None \<Rightarrow> None
      | Some rt \<Rightarrow> pv_lookup (position_vars rt) symbol pos_side)"

text \<open>
  What the code keeps true of a runtime: \<^verbatim>\<open>_init_copy_runtime\<close> creates it with empty
  \<^verbatim>\<open>position_vars\<close> and sets \<^verbatim>\<open>READY\<close> and \<^verbatim>\<open>network_ready\<close> together, and the fan-out
  creates PVs only in a runtime that \<^verbatim>\<open>ensure_copy_state\<close> handed out; so a runtime that
  is not ready holds no PV.  The keys of a dictionary are distinct.
\<close>

definition runtime_wf :: "runtime \<Rightarrow> bool" where
  "runtime_wf rt =
     (dict_keys_distinct (position_vars rt)
      \<and> (init_state rt = ''READY'' \<and> network_ready rt \<or> position_vars rt = []))"

definition mev_key :: "master_event \<Rightarrow> int option \<times> string \<times> pos_side option" where
  "mev_key e = (mev_cid e, mev_symbol e, mev_pos_side e)"

section \<open>Scenarios\<close>

text \<open>Concrete inputs on which the theorems below are exercised.\<close>

text \<open>Parsers for a run in which no string spells a number.\<close>

definition no_numeric_strings :: parsers where
  "no_numeric_strings = \<lparr> float_of_str = (\<lambda>s. None), int_of_str = (\<lambda>s. None) \<rparr>"

text \<open>An open position as the exchange reports it: 2 contracts long on \<^verbatim>\<open>BTC_USDT\<close>.\<close>

definition btc_long_position :: raw_position where
  "btc_long_position = Some
     [''state'' \<mapsto> PInt 1, ''symbol'' \<mapsto> PStr ''BTC_USDT'', ''positionType'' \<mapsto> PInt 1,
      ''holdVol'' \<mapsto> PInt 2, ''openAvgPrice'' \<mapsto> PFloat 100, ''holdAvgPrice'' \<mapsto> PFloat 100,
      ''leverage'' \<mapsto> PInt 10, ''openType'' \<mapsto> PInt 1]"

text \<open>The follower's PV for that position, entered at 1700000000000 ms.\<close>

definition btc_long_pv :: pos_var where
  "btc_long_pv = \<lparr> in_position = True, qty = 2, entry_price = Some 100, avg_price = Some 100,
     leverage = Some 10, margin_mode = Some 1, entry_ts = Some 1700000000000, state = None \<rparr>"

text \<open>A translator that has seen nothing yet.\<close>

definition idle_translator :: translator where
  "idle_translator = \<lparr> pos_vars_root = Map.empty, pending = [], limit_intents = [] \<rparr>"

text \<open>
  An order push as the stream classifies it: 10 contracts at 100, exchange time and
  receipt time 1700000000000 ms, and the fields of \<open>extra\<close> on top.
\<close>

definition order_event :: "string \<Rightarrow> pos_side option \<Rightarrow> string \<Rightarrow> pydict \<Rightarrow> signal_event" where
  "order_event symbol side etype extra =
     \<lparr> ev_symbol = symbol, ev_pos_side = side, event_type = etype, ev_ts = 1700000000000,
       raw = [''vol'' \<mapsto> PInt 10, ''price'' \<mapsto> PStr ''100'',
              ''updateTime'' \<mapsto> PInt 1700000000000] ++ extra \<rparr>"

text \<open>
  The master cancels its limit order \<^verbatim>\<open>M1\<close>; the follower has copied it as the order
  \<open>copy_oid\<close>.
\<close>

definition cancel_m1 :: master_event where
  "cancel_m1 = \<lparr> mev_event = Canceled, mev_method = Limit, mev_symbol = ''BTC_USDT'',
     mev_pos_side = Some LONG, mev_closed = False,
     mev_payload = Some [''order_id'' \<mapsto> PStr ''M1'', ''exec_ts'' \<mapsto> PInt 1700000000000],
     mev_sig_type = Copy, mev_ts = 1700000000000, mev_cid = None \<rparr>"

definition copied_m1 :: "pyval \<Rightarrow> exec_state" where
  "copied_m1 copy_oid =
     \<lparr> orders = \<lparr> limit_root = Some [(PStr ''M1'',
          \<lparr> copy_order_id = copy_oid, order_price = PStr ''100'', order_qty = 5,
            status = ''OPEN'' \<rparr>)], trigger_root = None \<rparr>,
       log_events = [], api_calls = [] \<rparr>"

text \<open>
  Follower 3 holds the long position above and has an idle PV for the short side; its
  runtime is as ready as \<open>ready\<close> says.  The translator's queue is attached and empty.
\<close>

definition follower3 :: "string \<Rightarrow> main_context" where
  "follower3 ready =
     \<lparr> copy_runtime_states =
         [3 \<mapsto> \<lparr> init_state = ready, network_ready = True,
                   position_vars = [(''BTC_USDT'', [(LONG, btc_long_pv), (SHORT, base_template)])] \<rparr>],
       cmd_ids = [], ui_log = [], out_queue = Some [] \<rparr>"

section \<open>Symbol normalisation\<close>

lemma upper_char_idem: "upper_char (upper_char c) = upper_char c"
  by (auto simp: upper_char_def Let_def)


lemma str_replace_single_del: "str_replace [c] [] s = filter (\<lambda>x. x \<noteq> c) s"
proof (induction s)
  case Nil
  show ?case by (simp add: str_replace.simps)
next
  case (Cons a s)
  show ?case
    using Cons.IH by (subst str_replace.simps) (auto simp: take_Suc_conv_app_nth)
qed

lemma set_str_replace: "old \<noteq> [] \<Longrightarrow> set (str_replace old new s) \<subseteq> set s \<union> set new"
proof (induction old new s rule: str_replace.induct)
  case (1 old new s)
  show ?case
  proof (cases "s = []")
    case True
    then show ?thesis using "1.prems" by (subst str_replace.simps) simp
  next
    case ne: False
    show ?thesis
    proof (cases "take (length old) s = old")
      case True
      have "set (str_replace old new (drop (length old) s)) \<subseteq> set (drop (length old) s) \<union> set new"
        using "1.IH"(1) "1.prems" ne True by simp
      moreover have "set (drop (length old) s) \<subseteq> set s"
        by (rule set_drop_subset)
      ultimately show ?thesis
        using "1.prems" ne True by (subst str_replace.simps) auto
    next
      case False
      have "set (str_replace old new (tl s)) \<subseteq> set (tl s) \<union> set new"
        using "1.IH"(2) "1.prems" ne False by simp
      moreover have "set s = insert (hd s) (set (tl s))"
        using ne by (cases s) auto
      ultimately show ?thesis
        using "1.prems" ne False by (subst str_replace.simps) auto
    qed
  qed
qed

lemma filter_str_replace_underscore:
  "old \<noteq> [] \<Longrightarrow> CHR ''_'' \<notin> set old \<Longrightarrow>
   filter (\<lambda>x. x \<noteq> CHR ''_'') (str_replace old (CHR ''_'' # old) s) = filter (\<lambda>x. x \<noteq> CHR ''_'') s"
proof (induction old "CHR ''_'' # old" s rule: str_replace.induct)
  case (1 old s)
  show ?case
  proof (cases "s = []")
    case True
    then show ?thesis using "1.prems" by (subst str_replace.simps) simp
  next
    case ne: False
    show ?thesis
    proof (cases "take (length old) s = old")
      case True
      have ih: "filter (\<lambda>x. x \<noteq> CHR ''_'') (str_replace old (CHR ''_'' # old) (drop (length old) s))
          = filter (\<lambda>x. x \<noteq> CHR ''_'') (drop (length old) s)"
        using "1.hyps"(1) "1.prems" ne True by simp
      have "filter (\<lambda>x. x \<noteq> CHR ''_'') s
          = filter (\<lambda>x. x \<noteq> CHR ''_'') (take (length old) s) @ filter (\<lambda>x. x \<noteq> CHR ''_'') (drop (length old) s)"
        by (metis append_take_drop_id filter_append)
      moreover have "filter (\<lambda>x. x \<noteq> CHR ''_'') old = old"
        using "1.prems"(2) by (induction old) auto
      ultimately show ?thesis
        using "1.prems" ne True ih by (subst str_replace.simps) simp
    next
      case False
      have ih: "filter (\<lambda>x. x \<noteq> CHR ''_'') (str_replace old (CHR ''_'' # old) (tl s))
          = filter (\<lambda>x. x \<noteq> CHR ''_'') (tl s)"
        using "1.hyps"(2) "1.prems" ne False by simp
      show ?thesis
        using "1.prems" ne False ih by (subst str_replace.simps) (cases s; simp)
    qed
  qed
qed

lemma filter_neq_id: "c \<notin> set s \<Longrightarrow> filter (\<lambda>x. x \<noteq> c) s = s"
  by (induction s) auto

lemma py_upper_fixed: "\<forall>c\<in>set s. upper_char c = c \<Longrightarrow> py_upper s = s"
  by (simp add: py_upper_def map_idI)

lemma usdt_upper: "py_upper ''USDT'' = ''USDT''"
  by (simp add: py_upper_def upper_char_def)

text \<open>
  Claim C10.  Normalising a symbol twice is the same as normalising it once, with the
  default quote asset \<^verbatim>\<open>USDT\<close>: the second pass removes the underscore that the first
  one put in front of \<^verbatim>\<open>USDT\<close> and puts it back at the same place.
\<close>

theorem normalize_symbol_idempotent:
  "normalize_symbol (normalize_symbol s ''USDT'') ''USDT'' = normalize_symbol s ''USDT''"
proof (cases "s = []")
  case True
  then show ?thesis by (simp add: normalize_symbol_def)
next
  case False
  define c where "c = filter (\<lambda>x. x \<noteq> CHR '' '') (filter (\<lambda>x. x \<noteq> CHR ''_'') (filter (\<lambda>x. x \<noteq> CHR ''-'') (py_upper s)))"
  define r where "r = str_replace ''USDT'' ''_USDT'' c"
  have first: "normalize_symbol s ''USDT'' = r"
    using False by (simp add: normalize_symbol_def Let_def usdt_upper str_replace_single_del c_def r_def)
  have c_upper: "\<forall>x\<in>set c. upper_char x = x"
    by (auto simp: c_def py_upper_def upper_char_idem)
  have c_chars: "CHR ''-'' \<notin> set c" "CHR ''_'' \<notin> set c" "CHR '' '' \<notin> set c"
    by (auto simp: c_def)
  have r_sub: "set r \<subseteq> set c \<union> set ''_USDT''"
    unfolding r_def by (rule set_str_replace) simp
  have r_upper: "py_upper r = r"
  proof (rule py_upper_fixed, rule ballI)
    fix x assume "x \<in> set r"
    then have "x \<in> set c \<or> x \<in> set ''_USDT''" using r_sub by auto
    then show "upper_char x = x"
      using c_upper by (auto simp: upper_char_def)
  qed
  have r_dash: "filter (\<lambda>x. x \<noteq> CHR ''-'') r = r"
    using r_sub c_chars(1) by (intro filter_neq_id) auto
  have r_us: "filter (\<lambda>x. x \<noteq> CHR ''_'') r = c"
    unfolding r_def using c_chars(2)
    by (simp add: filter_str_replace_underscore filter_neq_id)
  have c_sp: "filter (\<lambda>x. x \<noteq> CHR '' '') c = c"
    using c_chars(3) by (rule filter_neq_id)
  have "normalize_symbol r ''USDT'' = r"
  proof (cases "r = []")
    case True
    then show ?thesis by (simp add: normalize_symbol_def)
  next
    case False
    then show ?thesis
      by (simp add: normalize_symbol_def Let_def usdt_upper str_replace_single_del r_upper r_dash r_us c_sp
            del: filter_filter)
        (simp add: r_def)
  qed
  then show ?thesis by (simp add: first)
qed

section \<open>The margin clamp\<close>

text \<open>
  Claim C5.  The literal scenario: 20 contracts, coefficient 0.5, no jitter, at most 50 of
  margin, price 100, leverage 10, contract size 1, volume unit 0.1 and one decimal give
  exactly 5 contracts.
\<close>

theorem clamp_literal_scenario:
  "clamp_by_max_margin 20 50 (Some 100) 10 (1 / 2) 100
     (Some \<lparr> contract_size = Some 1, vol_unit = Some (1 / 10), contract_precision = Some 1 \<rparr>) = 5"
  by (simp add: clamp_by_max_margin_def clamp_snap_def py_round_def round_half_even_def Let_def)

text \<open>
  Claim C6 as stated fails: in the scenario above, raising \<^verbatim>\<open>max_margin\<close> from 0 (no limit,
  10 contracts) to 50 lowers the result to 5 contracts.
\<close>

theorem clamp_monotone_counterexample:
  "(0 :: rat) \<le> 50 \<and>
   \<not> clamp_by_max_margin 20 0 (Some 100) 10 (1 / 2) 100
         (Some \<lparr> contract_size = Some 1, vol_unit = Some (1 / 10), contract_precision = Some 1 \<rparr>)
     \<le> clamp_by_max_margin 20 50 (Some 100) 10 (1 / 2) 100
         (Some \<lparr> contract_size = Some 1, vol_unit = Some (1 / 10), contract_precision = Some 1 \<rparr>)"
  by (simp add: clamp_by_max_margin_def clamp_snap_def py_round_def round_half_even_def Let_def)

lemma round_half_even_mono: "x \<le> y \<Longrightarrow> round_half_even x \<le> round_half_even y"
proof -
  assume xy: "x \<le> y"
  have fl: "\<lfloor>x\<rfloor> \<le> \<lfloor>y\<rfloor>" using xy by (rule floor_mono)
  have bx: "round_half_even x \<le> \<lfloor>x\<rfloor> + 1" and by': "\<lfloor>y\<rfloor> \<le> round_half_even y"
    by (auto simp: round_half_even_def Let_def)
  show ?thesis
  proof (cases "\<lfloor>x\<rfloor> = \<lfloor>y\<rfloor>")
    case True
    then have "x - of_int \<lfloor>x\<rfloor> \<le> y - of_int \<lfloor>y\<rfloor>" using xy by simp
    then show ?thesis using True by (auto simp: round_half_even_def Let_def)
  next
    case False
    then have "\<lfloor>x\<rfloor> + 1 \<le> \<lfloor>y\<rfloor>" using fl by simp
    then show ?thesis using bx by' by linarith
  qed
qed

lemma py_round_mono: "x \<le> y \<Longrightarrow> py_round x p \<le> py_round y p"
proof -
  assume xy: "x \<le> y"
  define scale :: rat where "scale = (if 0 \<le> p then 10 ^ nat p else 1 / 10 ^ nat (- p))"
  have pos: "0 < scale" by (simp add: scale_def)
  have "x * scale \<le> y * scale" using xy pos by simp
  then have "round_half_even (x * scale) \<le> round_half_even (y * scale)"
    by (rule round_half_even_mono)
  then have "(of_int (round_half_even (x * scale)) :: rat) / scale \<le> of_int (round_half_even (y * scale)) / scale"
    using pos by (simp add: divide_right_mono)
  then show ?thesis by (simp add: py_round_def Let_def scale_def)
qed

lemma grid_mono:
  fixes vu :: rat
  assumes "vu \<noteq> 0" "x \<le> y"
  shows "of_int \<lfloor>x / vu\<rfloor> * vu \<le> of_int \<lfloor>y / vu\<rfloor> * vu"
proof (cases "0 < vu")
  case True
  then have "x / vu \<le> y / vu" using assms by (simp add: divide_right_mono)
  then have "\<lfloor>x / vu\<rfloor> \<le> \<lfloor>y / vu\<rfloor>" by (rule floor_mono)
  then have "(of_int \<lfloor>x / vu\<rfloor> :: rat) \<le> of_int \<lfloor>y / vu\<rfloor>" by simp
  then show ?thesis using True by (simp add: mult_right_mono)
next
  case False
  then have neg: "vu < 0" using assms by simp
  then have "y / vu \<le> x / vu" using assms by (simp add: divide_right_mono_neg)
  then have "\<lfloor>y / vu\<rfloor> \<le> \<lfloor>x / vu\<rfloor>" by (rule floor_mono)
  then have "(of_int \<lfloor>y / vu\<rfloor> :: rat) \<le> of_int \<lfloor>x / vu\<rfloor>" by simp
  then show ?thesis using neg by (simp add: mult_right_mono_neg)
qed


lemma py_round_zero: "py_round 0 p = 0"
  by (simp add: py_round_def round_half_even_def)

lemma grid_nonpos:
  fixes vu :: rat
  assumes "vu \<noteq> 0" "x \<le> 0"
  shows "of_int \<lfloor>x / vu\<rfloor> * vu \<le> 0"
proof -
  have "of_int \<lfloor>x / vu\<rfloor> * vu \<le> of_int \<lfloor>0 / vu\<rfloor> * vu"
    using assms by (rule grid_mono)
  then show ?thesis by simp
qed

lemma cut_mono:
  fixes x y :: rat
  shows "x \<le> y \<Longrightarrow> (if x \<le> 0 then 0 else x) \<le> (if y \<le> 0 then 0 else y)"
  by auto

lemma clamp_snap_mono:
  assumes "0 < pr" "0 < lev" "0 < cs" "vu \<noteq> 0" "a \<le> b"
  shows "clamp_snap a pr lev cs vu p \<le> clamp_snap b pr lev cs vu p"
proof -
  have "a * of_int lev \<le> b * of_int lev"
    using assms by (simp add: mult_right_mono)
  then have "a * of_int lev / pr \<le> b * of_int lev / pr"
    using assms by (simp add: divide_right_mono)
  then have "a * of_int lev / pr / cs \<le> b * of_int lev / pr / cs"
    using assms by (simp add: divide_right_mono)
  then have "of_int \<lfloor>a * of_int lev / pr / cs / vu\<rfloor> * vu \<le> of_int \<lfloor>b * of_int lev / pr / cs / vu\<rfloor> * vu"
    using assms(4) by (intro grid_mono)
  then have "py_round (of_int \<lfloor>a * of_int lev / pr / cs / vu\<rfloor> * vu) p
      \<le> py_round (of_int \<lfloor>b * of_int lev / pr / cs / vu\<rfloor> * vu) p"
    by (rule py_round_mono)
  then show ?thesis unfolding clamp_snap_def Let_def by (rule cut_mono)
qed

lemma clamp_snap_neg_size:
  assumes "0 < pr" "0 < lev" "cs < 0" "vu \<noteq> 0" "0 \<le> a"
  shows "clamp_snap a pr lev cs vu p = 0"
proof -
  have "0 \<le> a * of_int lev / pr" using assms by simp
  then have "a * of_int lev / pr / cs \<le> 0"
    using assms(3) by (rule divide_nonneg_neg)
  then have "of_int \<lfloor>a * of_int lev / pr / cs / vu\<rfloor> * vu \<le> 0"
    using assms(4) by (intro grid_nonpos)
  then have "py_round (of_int \<lfloor>a * of_int lev / pr / cs / vu\<rfloor> * vu) p \<le> py_round 0 p"
    by (rule py_round_mono)
  then have "py_round (of_int \<lfloor>a * of_int lev / pr / cs / vu\<rfloor> * vu) p \<le> 0"
    by (simp only: py_round_zero)
  then show ?thesis unfolding clamp_snap_def Let_def by (simp only: if_True)
qed

lemma clamp_core_mono:
  assumes pr: "0 < pr" and lev: "0 < lev" and cs: "cs \<noteq> 0" and vu: "vu \<noteq> 0"
    and m: "0 < m1" "m1 \<le> m2"
  shows "(if M \<noteq> 0 \<and> m1 \<noteq> 0 \<and> M \<ge> m1 then clamp_snap \<bar>m1\<bar> pr lev cs vu p
          else if M = 0 then 0 else clamp_snap M pr lev cs vu p)
       \<le> (if M \<noteq> 0 \<and> m2 \<noteq> 0 \<and> M \<ge> m2 then clamp_snap \<bar>m2\<bar> pr lev cs vu p
          else if M = 0 then 0 else clamp_snap M pr lev cs vu p)"
proof (cases "0 < cs")
  case True
  have "clamp_snap m1 pr lev cs vu p \<le> clamp_snap m2 pr lev cs vu p"
    using pr lev True vu m(2) by (rule clamp_snap_mono)
  moreover have "M \<ge> m1 \<Longrightarrow> clamp_snap m1 pr lev cs vu p \<le> clamp_snap M pr lev cs vu p"
    using pr lev True vu by (rule clamp_snap_mono)
  ultimately show ?thesis using m by auto
next
  case False
  then have neg: "cs < 0" using cs by simp
  have z: "\<And>a. 0 \<le> a \<Longrightarrow> clamp_snap a pr lev cs vu p = 0"
    using pr lev neg vu by (rule clamp_snap_neg_size)
  show ?thesis
  proof (cases "0 \<le> M")
    case True
    then show ?thesis using m by (simp add: z)
  next
    case False
    then show ?thesis using m by auto
  qed
qed

text \<open>
  Claim C6, amended.  With the other inputs fixed, the clamp's result does not decrease
  when a positive \<^verbatim>\<open>max_margin\<close> grows.  (A \<^verbatim>\<open>max_margin\<close> of zero means "no limit", so the
  step from zero to a positive limit can lower the result.)
\<close>

theorem clamp_monotone:
  assumes "0 < m1" "m1 \<le> m2"
  shows "clamp_by_max_margin contracts m1 price lev coef rnd spec
       \<le> clamp_by_max_margin contracts m2 price lev coef rnd spec"
proof (cases price)
  case None
  then show ?thesis by (simp add: clamp_by_max_margin_def)
next
  case (Some pr)
  note price = Some
  show ?thesis
  proof (cases "pr \<le> 0 \<or> lev \<le> 0")
    case True
    then show ?thesis using price by (auto simp: clamp_by_max_margin_def)
  next
    case False
    then have pos: "0 < pr" "0 < lev" by auto
    show ?thesis
    proof (cases spec)
      case None
      then show ?thesis using price by (simp add: clamp_by_max_margin_def)
    next
      case (Some sp)
      show ?thesis
      proof (cases "\<exists>cs vu p. contract_size sp = Some cs \<and> vol_unit sp = Some vu
                      \<and> contract_precision sp = Some p \<and> cs \<noteq> 0 \<and> vu \<noteq> 0")
        case True
        then obtain cs vu p where sp: "contract_size sp = Some cs" "vol_unit sp = Some vu"
          "contract_precision sp = Some p" "cs \<noteq> 0" "vu \<noteq> 0" by blast
        show ?thesis
          using pos sp price Some clamp_core_mono [OF pos sp(4) sp(5) assms]
          by (simp add: clamp_by_max_margin_def Let_def)
      next
        case False
        then show ?thesis using price Some
          by (auto simp: clamp_by_max_margin_def split: option.splits)
      qed
    qed
  qed
qed

theorem clamp_monotone_witness:
  "(0 :: rat) < 50 \<and> (50 :: rat) \<le> 100 \<and>
   clamp_by_max_margin 20 50 (Some 100) 10 (1 / 2) 100
         (Some \<lparr> contract_size = Some 1, vol_unit = Some (1 / 10), contract_precision = Some 1 \<rparr>) = 5 \<and>
   clamp_by_max_margin 20 100 (Some 100) 10 (1 / 2) 100
         (Some \<lparr> contract_size = Some 1, vol_unit = Some (1 / 10), contract_precision = Some 1 \<rparr>) = 10"
  using clamp_monotone [of 50 100 20 "Some 100" 10 "1 / 2" 100
         "Some \<lparr> contract_size = Some 1, vol_unit = Some (1 / 10), contract_precision = Some 1 \<rparr>"]
  by (simp add: clamp_by_max_margin_def clamp_snap_def py_round_def round_half_even_def Let_def)

section \<open>The position monitor\<close>


lemma base_template_invariant: "pv_invariant base_template"
  by (simp add: pv_invariant_def base_template_def)

lemma position_not_found_invariant: "pv_invariant pv \<Longrightarrow> pv_invariant (position_not_found pv)"
  by (simp add: pv_invariant_def position_not_found_def update_base_template_def)

lemma apply_snapshot_invariant:
  "pv_invariant pv \<Longrightarrow> pv_invariant (apply_snapshot now_ts active symbol pos_side pv)"
proof (cases "active (symbol, pos_side)")
  case None
  assume "pv_invariant pv"
  then show ?thesis using None
    by (simp add: apply_snapshot_def position_not_found_invariant)
next
  case (Some info)
  assume inv: "pv_invariant pv"
  show ?thesis
  proof (cases "pi_qty info > 0")
    case True
    then show ?thesis using Some
      by (simp add: apply_snapshot_def Let_def pv_invariant_def)
  next
    case False
    then show ?thesis using Some inv
      by (simp add: apply_snapshot_def Let_def position_not_found_invariant)
  qed
qed

lemma all_pvs_Nil: "all_pvs [] = []"
  by (simp add: all_pvs_def)

lemma all_pvs_Cons: "all_pvs ((symbol, sides) # pvs) = map snd sides @ all_pvs pvs"
  by (simp add: all_pvs_def)

lemma all_pvs_refresh:
  "all_pvs (refresh P now_ts (Some ps) pvs) =
     concat (map (\<lambda>(symbol, sides).
        map (\<lambda>(pos_side, pv). apply_snapshot now_ts (build_active P ps Map.empty) symbol pos_side pv) sides) pvs)"
  by (induction pvs) (auto simp: all_pvs_def refresh_def Let_def)

lemma refresh_invariant:
  assumes "\<forall>pv \<in> set (all_pvs pvs). pv_invariant pv"
  shows "\<forall>pv \<in> set (all_pvs (refresh P now_ts positions pvs)). pv_invariant pv"
proof (cases positions)
  case None
  then show ?thesis using assms by (simp add: refresh_def)
next
  case (Some ps)
  show ?thesis
    unfolding Some all_pvs_refresh using assms
    by (fastforce simp: all_pvs_def intro: apply_snapshot_invariant)
qed

lemma ensure_side_invariant:
  "\<forall>pv \<in> snd ` set sides. pv_invariant pv \<Longrightarrow> \<forall>pv \<in> snd ` set (ensure_side d sides). pv_invariant pv"
  by (induction d sides rule: ensure_side.induct) (auto simp: base_template_invariant)

lemma create_invariant:
  "\<forall>pv \<in> set (all_pvs pvs). pv_invariant pv \<Longrightarrow>
   \<forall>pv \<in> set (all_pvs (get_cid_symbol_pos symb d pvs)). pv_invariant pv"
proof (induction symb d pvs rule: get_cid_symbol_pos.induct)
  case (1 symb d)
  then show ?case by (simp add: all_pvs_Cons all_pvs_Nil base_template_invariant)
next
  case (2 symb d symb' sides pvs)
  have sides: "\<forall>pv \<in> snd ` set sides. pv_invariant pv"
    and rest: "\<forall>pv \<in> set (all_pvs pvs). pv_invariant pv"
    using "2.prems" by (auto simp: all_pvs_Cons)
  show ?case
  proof (cases "symb' = symb")
    case True
    have "\<forall>pv \<in> snd ` set (ensure_side d sides). pv_invariant pv"
      using sides by (rule ensure_side_invariant)
    then show ?thesis using True rest by (auto simp: all_pvs_Cons)
  next
    case False
    have "\<forall>pv \<in> set (all_pvs (get_cid_symbol_pos symb d pvs)). pv_invariant pv"
      using "2.IH" False rest by simp
    then show ?thesis using False sides by (auto simp: all_pvs_Cons)
  qed
qed

text \<open>
  Claim C9.  In every PV map that a follower reaches from PVs created by the base template
  and any number of refreshes, each PV has \<^verbatim>\<open>qty = 0\<close> when \<^verbatim>\<open>in_position\<close> is false and
  \<^verbatim>\<open>qty > 0\<close> when it is true.
\<close>

theorem refresh_keeps_qty_invariant:
  assumes "pv_reachable P pvs"
  shows "\<forall>pv \<in> set (all_pvs pvs).
           (\<not> in_position pv \<longrightarrow> qty pv = 0) \<and> (in_position pv \<longrightarrow> qty pv > 0)"
proof -
  have "\<forall>pv \<in> set (all_pvs pvs). pv_invariant pv"
    using assms
  proof (induction rule: pv_reachable.induct)
    case init
    show ?case by (simp add: all_pvs_def)
  next
    case (create pvs symb d)
    then show ?case by (intro create_invariant)
  next
    case (refreshed pvs now_ts positions)
    then show ?case by (intro refresh_invariant)
  qed
  then show ?thesis by (simp add: pv_invariant_def)
qed

lemma refresh_btc_long:
  "refresh no_numeric_strings 1700000000000 (Some [btc_long_position])
     (get_cid_symbol_pos ''BTC_USDT'' LONG []) = [(''BTC_USDT'', [(LONG, btc_long_pv)])]"
  by (simp add: refresh_def unpack_def dget_def py_eq_def apply_snapshot_def base_template_def Let_def
      no_numeric_strings_def btc_long_position_def btc_long_pv_def)

theorem refresh_keeps_qty_invariant_witness:
  "pv_reachable no_numeric_strings
     (refresh no_numeric_strings 1700000000000 (Some [btc_long_position])
        (get_cid_symbol_pos ''BTC_USDT'' LONG []))
   \<and> all_pvs (refresh no_numeric_strings 1700000000000 (Some [btc_long_position])
        (get_cid_symbol_pos ''BTC_USDT'' LONG [])) = [btc_long_pv]
   \<and> in_position btc_long_pv \<and> qty btc_long_pv > 0"
proof -
  have r: "pv_reachable no_numeric_strings
     (refresh no_numeric_strings 1700000000000 (Some [btc_long_position])
        (get_cid_symbol_pos ''BTC_USDT'' LONG []))"
    by (intro pv_reachable.intros)
  show ?thesis
    using r refresh_keeps_qty_invariant [OF r] unfolding refresh_btc_long
    by (simp add: all_pvs_Cons all_pvs_Nil btc_long_pv_def)
qed

lemma refresh_None_unchanged: "refresh P now_ts None pvs = pvs"
  by (simp add: refresh_def)

lemma fetch_positions_failure: "\<not> success r \<Longrightarrow> fetch_positions (Some r) = []"
  by (simp add: fetch_positions_def split: option.splits)

text \<open>
  Claim C2 does not hold of the code.  \<^verbatim>\<open>refresh\<close> leaves the PVs alone only when the
  fetch returns \<^verbatim>\<open>None\<close>, and \<^verbatim>\<open>MexcClient.fetch_positions\<close> answers an unsuccessful
  response with the empty list: the follower's open position is then reset to the base
  template and marked \<^verbatim>\<open>CLOSED_PENDING\<close>.
\<close>

theorem failed_fetch_resets_position:
  "client_refresh P now_ts (Some \<lparr> success = False, data = None \<rparr>)
     [(''BTC_USDT'', [(LONG, btc_long_pv)])]
   = [(''BTC_USDT'', [(LONG, \<lparr> in_position = False, qty = 0, entry_price = None,
        avg_price = None, leverage = None, margin_mode = None,
        entry_ts = Some 1700000000000, state = Some CLOSED_PENDING \<rparr>)])]"
  by (simp add: client_refresh_def fetch_positions_def refresh_def apply_snapshot_def
      position_not_found_def update_base_template_def Let_def btc_long_pv_def)

section \<open>The translator\<close>

lemma py_eq_refl: "py_eq v v"
  by (cases v) (simp_all add: py_eq_def)

lemma set_member_add: "set_member v (set_add v S)"
  by (simp add: set_member_def set_add_def list_ex_iff py_eq_refl)

lemma set_member_discard: "\<not> set_member v (set_discard v S)"
  by (simp add: set_member_def set_discard_def list_ex_iff)

lemma pending_emit:
  "pending (emit clock T event meth symbol d is_closed payload ev) = pending T @
     [\<lparr> mev_event = event, mev_method = meth, mev_symbol = symbol, mev_pos_side = Some d,
        mev_closed = is_closed,
        mev_payload = Some (payload(''exec_ts'' \<mapsto>
           (case extract_exchange_ts ev of Some e \<Rightarrow> PInt e | None \<Rightarrow> PNone))),
        mev_sig_type = Copy,
        mev_ts = emit_ts clock (extract_exchange_ts ev) (ev_ts ev), mev_cid = None \<rparr>]"
  by (simp add: emit_def Let_def)

lemma limit_intents_emit:
  "limit_intents (emit clock T event meth symbol d is_closed payload ev) = limit_intents T"
  by (simp add: emit_def Let_def)

lemma route_limit_placed:
  assumes "ev_symbol ev \<noteq> []" "ev_pos_side ev = Some d" "event_type ev = ''limit_placed''"
  shows "route P clock T ev = route_limit_placed P clock T ev (ev_symbol ev) d"
  using assms by (simp add: route_def Let_def)

lemma route_limit_filled:
  assumes "ev_symbol ev \<noteq> []" "ev_pos_side ev = Some d" "event_type ev = ''limit_filled''"
  shows "route P clock T ev = route_limit_filled P clock T ev (ev_symbol ev) d"
  using assms by (simp add: route_def Let_def)

lemma route_trigger_filled:
  assumes "ev_symbol ev \<noteq> []" "ev_pos_side ev = Some d" "event_type ev = ''trigger_filled''"
  shows "route P clock T ev = route_trigger_filled P clock T ev (ev_symbol ev) d"
  using assms by (simp add: route_def Let_def)

lemma placed_pending:
  "map (\<lambda>e. (mev_event e, mev_method e, mev_closed e)) (pending (route_limit_placed P clock T ev symbol d))
     = map (\<lambda>e. (mev_event e, mev_method e, mev_closed e)) (pending T) @ [(Buy, Limit, False)]"
  by (simp add: route_limit_placed_def Let_def pending_emit)

lemma placed_intents:
  "truthy (dget (raw ev) ''orderId'') \<Longrightarrow>
   limit_intents (route_limit_placed P clock T ev symbol d)
     = set_add (dget (raw ev) ''orderId'') (limit_intents T)"
  by (simp add: route_limit_placed_def Let_def limit_intents_emit)

lemma filled_echo:
  assumes "set_member (dget (raw ev) ''orderId'') (limit_intents T)"
  shows "pending (route_limit_filled P clock T ev symbol d) = pending T"
    and "limit_intents (route_limit_filled P clock T ev symbol d)
           = set_discard (dget (raw ev) ''orderId'') (limit_intents T)"
  using assms by (simp_all add: route_limit_filled_def Let_def)

lemma filled_unknown:
  assumes "\<not> set_member (dget (raw ev) ''orderId'') (limit_intents T)"
  shows "map (\<lambda>e. (mev_event e, mev_method e, mev_closed e)) (pending (route_limit_filled P clock T ev symbol d))
     = map (\<lambda>e. (mev_event e, mev_method e, mev_closed e)) (pending T) @ [(Buy, Limit, False)]"
  using assms by (simp add: route_limit_filled_def Let_def pending_emit split: prod.splits)


lemma py_eq_sym: "py_eq a b \<Longrightarrow> py_eq b a"
  by (auto simp: py_eq_def split: option.splits)

lemma py_eq_trans: "py_eq a b \<Longrightarrow> py_eq b c \<Longrightarrow> py_eq a c"
  by (auto simp: py_eq_def split: option.splits)

lemma set_member_add_keep: "set_member L S \<Longrightarrow> set_member L (set_add v S)"
  by (auto simp: set_member_def set_add_def list_ex_iff)

lemma set_member_discard_keep:
  assumes "set_member L S" "\<not> py_eq v L"
  shows "set_member L (set_discard v S)"
proof -
  obtain x where x: "x \<in> set S" "py_eq x L"
    using assms(1) by (auto simp: set_member_def list_ex_iff)
  have "\<not> py_eq x v"
  proof
    assume "py_eq x v"
    then have "py_eq v x" by (rule py_eq_sym)
    then have "py_eq v L" using x(2) by (rule py_eq_trans)
    then show False using assms(2) by simp
  qed
  then show ?thesis using x by (auto simp: set_member_def set_discard_def list_ex_iff)
qed

lemma route_dropped:
  "ev_symbol ev = [] \<or> ev_pos_side ev = None \<Longrightarrow> route P clock T ev = T"
  by (auto simp: route_def Let_def split: option.splits)

lemma limit_intents_oco: "limit_intents (route_oco P T symbol d r) = limit_intents T"
  by (simp add: route_oco_def Let_def split: option.splits)

lemma limit_intents_market:
  "limit_intents (route_market_filled P clock T ev symbol d) = limit_intents T"
  by (simp add: route_market_filled_def Let_def limit_intents_emit split: prod.splits)

lemma limit_intents_trigger:
  "limit_intents (route_trigger_filled P clock T ev symbol d) = limit_intents T"
  by (simp add: route_trigger_filled_def Let_def limit_intents_emit split: prod.splits)

lemma limit_intents_placed_keep:
  "set_member L (limit_intents T) \<Longrightarrow>
   set_member L (limit_intents (route_limit_placed P clock T ev symbol d))"
  by (simp add: route_limit_placed_def Let_def limit_intents_emit set_member_add_keep)

lemma limit_intents_filled_keep:
  "set_member L (limit_intents T) \<Longrightarrow> \<not> py_eq (dget (raw ev) ''orderId'') L \<Longrightarrow>
   set_member L (limit_intents (route_limit_filled P clock T ev symbol d))"
  by (simp add: route_limit_filled_def Let_def limit_intents_emit set_member_discard_keep
      split: prod.splits)

lemma limit_intents_cancel_keep:
  "set_member L (limit_intents T) \<Longrightarrow> \<not> py_eq (dget (raw ev) ''orderId'') L \<Longrightarrow>
   set_member L (limit_intents (route_cancel clock T ev symbol d))"
  by (simp add: route_cancel_def Let_def limit_intents_emit set_member_discard_keep)

text \<open>An intent stays in the set until an event for its order id takes it out.\<close>

lemma route_keeps_intent:
  assumes "set_member L (limit_intents T)" "\<not> consumes_intent L ev"
  shows "set_member L (limit_intents (route P clock T ev))"
proof (cases "ev_symbol ev = [] \<or> ev_pos_side ev = None")
  case True
  then show ?thesis using assms(1) by (simp add: route_dropped)
next
  case False
  then obtain d where d: "ev_symbol ev \<noteq> []" "ev_pos_side ev = Some d" by auto
  have other: "\<not> py_eq (dget (raw ev) ''orderId'') L"
    if "event_type ev = ''limit_filled'' \<or> event_type ev = ''order_cancelled''
          \<or> event_type ev = ''order_invalid''"
    using assms(2) d that by (auto simp: consumes_intent_def)
  show ?thesis
    using assms(1) d other
    by (auto simp: route_def Let_def limit_intents_oco limit_intents_market
        limit_intents_trigger limit_intents_placed_keep limit_intents_filled_keep
        limit_intents_cancel_keep)
qed

lemma route_all_keeps_intent:
  assumes "set_member L (limit_intents T)" "list_all (\<lambda>(clock, ev). \<not> consumes_intent L ev) evs"
  shows "set_member L (limit_intents (route_all P T evs))"
  using assms
proof (induction evs arbitrary: T)
  case Nil
  then show ?case by simp
next
  case (Cons a evs)
  obtain clock ev where a: "a = (clock, ev)" by (cases a)
  have "set_member L (limit_intents (route P clock T ev))"
    using Cons.prems a by (intro route_keeps_intent) auto
  then show ?case using Cons.IH Cons.prems a by simp
qed

text \<open>
  Claim C1, amended.  An event without a symbol or without a position side is dropped and
  leaves the translator as it is.  For events that carry both: a \<^verbatim>\<open>limit_placed\<close> with
  a truthy order id \<open>L\<close> puts \<open>L\<close> into \<^verbatim>\<open>_limit_intents\<close> and emits one event
  \<^verbatim>\<open>{buy, limit, closed: false}\<close>; \<open>L\<close> stays in the set through any events that follow, as
  long as none of them is a \<^verbatim>\<open>limit_filled\<close>, \<^verbatim>\<open>order_cancelled\<close> or \<^verbatim>\<open>order_invalid\<close> for
  \<open>L\<close>; the \<^verbatim>\<open>limit_filled\<close> for \<open>L\<close> that comes then emits nothing and takes \<open>L\<close> out of
  the set; and a \<^verbatim>\<open>limit_filled\<close> whose order id is not in the set emits one event
  \<^verbatim>\<open>{buy, limit, closed: false}\<close>.
\<close>

theorem limit_self_echo_suppressed:
  assumes placed: "ev_symbol placed \<noteq> []" "ev_pos_side placed = Some d1"
      "event_type placed = ''limit_placed''" "dget (raw placed) ''orderId'' = L" "truthy L"
    and between: "list_all (\<lambda>(clock, ev). \<not> consumes_intent L ev) between"
    and filled: "ev_symbol filled \<noteq> []" "ev_pos_side filled = Some d2"
      "event_type filled = ''limit_filled''" "dget (raw filled) ''orderId'' = L"
    and other: "ev_symbol other \<noteq> []" "ev_pos_side other = Some d3"
      "event_type other = ''limit_filled''"
      "\<not> set_member (dget (raw other) ''orderId'') (limit_intents T')"
  shows "(\<forall>clock T0 ev. ev_symbol ev = [] \<or> ev_pos_side ev = None \<longrightarrow> route P clock T0 ev = T0)
    \<and> set_member L (limit_intents (route P c1 T placed))
    \<and> map (\<lambda>e. (mev_event e, mev_method e, mev_closed e)) (pending (route P c1 T placed))
        = map (\<lambda>e. (mev_event e, mev_method e, mev_closed e)) (pending T) @ [(Buy, Limit, False)]
    \<and> set_member L (limit_intents (route_all P (route P c1 T placed) between))
    \<and> pending (route P c2 (route_all P (route P c1 T placed) between) filled)
        = pending (route_all P (route P c1 T placed) between)
    \<and> \<not> set_member L
          (limit_intents (route P c2 (route_all P (route P c1 T placed) between) filled))
    \<and> map (\<lambda>e. (mev_event e, mev_method e, mev_closed e)) (pending (route P c3 T' other))
        = map (\<lambda>e. (mev_event e, mev_method e, mev_closed e)) (pending T') @ [(Buy, Limit, False)]"
proof -
  let ?T1 = "route P c1 T placed"
  let ?T2 = "route_all P ?T1 between"
  have drop: "\<forall>clock T0 ev. ev_symbol ev = [] \<or> ev_pos_side ev = None \<longrightarrow> route P clock T0 ev = T0"
    by (simp add: route_dropped)
  have r1: "?T1 = route_limit_placed P c1 T placed (ev_symbol placed) d1"
    using placed(1-3) by (rule route_limit_placed)
  have mem: "set_member L (limit_intents ?T1)"
    using placed(4,5) by (simp add: r1 placed_intents set_member_add)
  have p1: "map (\<lambda>e. (mev_event e, mev_method e, mev_closed e)) (pending ?T1)
        = map (\<lambda>e. (mev_event e, mev_method e, mev_closed e)) (pending T) @ [(Buy, Limit, False)]"
    unfolding r1 by (rule placed_pending)
  have mem2: "set_member L (limit_intents ?T2)"
    using mem between by (rule route_all_keeps_intent)
  have r2: "route P c2 ?T2 filled = route_limit_filled P c2 ?T2 filled (ev_symbol filled) d2"
    using filled(1-3) by (rule route_limit_filled)
  have mem3: "set_member (dget (raw filled) ''orderId'') (limit_intents ?T2)"
    using mem2 filled(4) by simp
  have p2: "pending (route P c2 ?T2 filled) = pending ?T2"
    unfolding r2 using mem3 by (rule filled_echo(1))
  have i2: "\<not> set_member L (limit_intents (route P c2 ?T2 filled))"
    unfolding r2 filled_echo(2) [OF mem3] using filled(4) by (simp add: set_member_discard)
  have r3: "route P c3 T' other = route_limit_filled P c3 T' other (ev_symbol other) d3"
    using other(1-3) by (rule route_limit_filled)
  have p3: "map (\<lambda>e. (mev_event e, mev_method e, mev_closed e)) (pending (route P c3 T' other))
        = map (\<lambda>e. (mev_event e, mev_method e, mev_closed e)) (pending T') @ [(Buy, Limit, False)]"
    unfolding r3 using other(4) by (rule filled_unknown)
  show ?thesis using drop mem p1 mem2 p2 i2 p3 by blast
qed

text \<open>
  Claim C1 as stated fails: the translator drops every event without a position side (or
  without a symbol) before it looks at the event type, so such a \<^verbatim>\<open>limit_placed\<close> records
  no intent and emits nothing.
\<close>

theorem limit_self_echo_counterexample:
  "pending (route no_numeric_strings 1700000000005 idle_translator
      (order_event ''BTC_USDT'' None ''limit_placed'' [''orderId'' \<mapsto> PStr ''L1''])) = []
   \<and> \<not> set_member (PStr ''L1'') (limit_intents (route no_numeric_strings 1700000000005 idle_translator
      (order_event ''BTC_USDT'' None ''limit_placed'' [''orderId'' \<mapsto> PStr ''L1''])))"
  by (simp add: route_def order_event_def idle_translator_def set_member_def)


theorem limit_self_echo_suppressed_witness:
  "truthy (PStr ''L1'')
   \<and> limit_intents (route no_numeric_strings 1700000000005 idle_translator
        (order_event ''BTC_USDT'' (Some LONG) ''limit_placed'' [''orderId'' \<mapsto> PStr ''L1''])) = [PStr ''L1'']
   \<and> limit_intents (route_all no_numeric_strings
        (route no_numeric_strings 1700000000005 idle_translator
          (order_event ''BTC_USDT'' (Some LONG) ''limit_placed'' [''orderId'' \<mapsto> PStr ''L1'']))
        [(1700000000007,
          order_event ''ETH_USDT'' (Some SHORT) ''limit_placed'' [''orderId'' \<mapsto> PStr ''L2''])])
      = [PStr ''L1'', PStr ''L2'']
   \<and> map (\<lambda>e. (mev_event e, mev_method e, mev_closed e))
        (pending (route no_numeric_strings 1700000000009
          (route_all no_numeric_strings
            (route no_numeric_strings 1700000000005 idle_translator
              (order_event ''BTC_USDT'' (Some LONG) ''limit_placed'' [''orderId'' \<mapsto> PStr ''L1'']))
            [(1700000000007,
              order_event ''ETH_USDT'' (Some SHORT) ''limit_placed'' [''orderId'' \<mapsto> PStr ''L2''])])
          (order_event ''BTC_USDT'' (Some LONG) ''limit_filled'' [''orderId'' \<mapsto> PStr ''L1''])))
      = [(Buy, Limit, False), (Buy, Limit, False)]
   \<and> limit_intents (route no_numeric_strings 1700000000009
          (route_all no_numeric_strings
            (route no_numeric_strings 1700000000005 idle_translator
              (order_event ''BTC_USDT'' (Some LONG) ''limit_placed'' [''orderId'' \<mapsto> PStr ''L1'']))
            [(1700000000007,
              order_event ''ETH_USDT'' (Some SHORT) ''limit_placed'' [''orderId'' \<mapsto> PStr ''L2''])])
          (order_event ''BTC_USDT'' (Some LONG) ''limit_filled'' [''orderId'' \<mapsto> PStr ''L1'']))
      = [PStr ''L2'']
   \<and> map (\<lambda>e. (mev_event e, mev_method e, mev_closed e))
        (pending (route no_numeric_strings 1700000000009 idle_translator
          (order_event ''BTC_USDT'' (Some LONG) ''limit_filled'' [''orderId'' \<mapsto> PStr ''X9''])))
      = [(Buy, Limit, False)]"
  using limit_self_echo_suppressed [of
      "order_event ''BTC_USDT'' (Some LONG) ''limit_placed'' [''orderId'' \<mapsto> PStr ''L1'']" LONG "PStr ''L1''"
      "[(1700000000007,
          order_event ''ETH_USDT'' (Some SHORT) ''limit_placed'' [''orderId'' \<mapsto> PStr ''L2''])]"
      "order_event ''BTC_USDT'' (Some LONG) ''limit_filled'' [''orderId'' \<mapsto> PStr ''L1'']" LONG
      "order_event ''BTC_USDT'' (Some LONG) ''limit_filled'' [''orderId'' \<mapsto> PStr ''X9'']" LONG
      idle_translator no_numeric_strings 1700000000005 idle_translator 1700000000009 1700000000009]
  by (simp add: route_def order_event_def idle_translator_def set_member_def set_add_def set_discard_def
      route_limit_placed_def route_limit_filled_def emit_def inject_oco_from_intent_def
      consumes_intent_def dget_def py_eq_def Let_def)

lemma trigger_pending:
  "pending (route_trigger_filled P clock T ev symbol d) \<noteq> []
   \<and> butlast (pending (route_trigger_filled P clock T ev symbol d)) = pending T
   \<and> mev_method (last (pending (route_trigger_filled P clock T ev symbol d))) = Trigger
   \<and> mev_event (last (pending (route_trigger_filled P clock T ev symbol d)))
       = (if py_eq (dget (raw ev) ''side'') (PInt 1) \<or> py_eq (dget (raw ev) ''side'') (PInt 3)
          then Buy else Sell)
   \<and> mev_closed (last (pending (route_trigger_filled P clock T ev symbol d)))
       = truthy (dget (raw ev) ''reduceOnly'')
   \<and> mev_pos_side (last (pending (route_trigger_filled P clock T ev symbol d)))
       = Some (if truthy (dget (raw ev) ''reduceOnly'') then opposite d else d)
   \<and> mev_symbol (last (pending (route_trigger_filled P clock T ev symbol d))) = symbol"
  by (simp add: route_trigger_filled_def Let_def pending_emit split: prod.splits)

text \<open>
  Claim C4, amended.  A \<^verbatim>\<open>trigger_filled\<close> event without a symbol or without a position
  side is dropped: the translator stays as it is and nothing is emitted.  One that carries
  both makes the translator emit exactly one event, with method \<^verbatim>\<open>trigger\<close>, event \<^verbatim>\<open>buy\<close>
  when the raw side is 1 or 3 and \<^verbatim>\<open>sell\<close> otherwise, \<^verbatim>\<open>closed\<close> equal to the truth value
  of the raw \<^verbatim>\<open>reduceOnly\<close>, and the position side flipped exactly when \<^verbatim>\<open>reduceOnly\<close> holds.
\<close>

theorem trigger_fill_translation:
  assumes "event_type ev = ''trigger_filled''"
  shows "(ev_symbol ev = [] \<or> ev_pos_side ev = None \<longrightarrow> route P clock T ev = T)
   \<and> (\<forall>d. ev_symbol ev \<noteq> [] \<and> ev_pos_side ev = Some d \<longrightarrow>
         pending (route P clock T ev) \<noteq> []
       \<and> butlast (pending (route P clock T ev)) = pending T
       \<and> mev_method (last (pending (route P clock T ev))) = Trigger
       \<and> mev_event (last (pending (route P clock T ev)))
           = (if py_eq (dget (raw ev) ''side'') (PInt 1) \<or> py_eq (dget (raw ev) ''side'') (PInt 3)
              then Buy else Sell)
       \<and> mev_closed (last (pending (route P clock T ev))) = truthy (dget (raw ev) ''reduceOnly'')
       \<and> mev_pos_side (last (pending (route P clock T ev)))
           = Some (if truthy (dget (raw ev) ''reduceOnly'') then opposite d else d))"
proof (intro conjI allI impI)
  assume "ev_symbol ev = [] \<or> ev_pos_side ev = None"
  then show "route P clock T ev = T" by (rule route_dropped)
next
  fix d
  assume "ev_symbol ev \<noteq> [] \<and> ev_pos_side ev = Some d"
  then have r: "route P clock T ev = route_trigger_filled P clock T ev (ev_symbol ev) d"
    using assms by (intro route_trigger_filled) auto
  note tp = trigger_pending [of P clock T ev "ev_symbol ev" d]
  show "pending (route P clock T ev) \<noteq> []" unfolding r using tp by blast
  show "butlast (pending (route P clock T ev)) = pending T" unfolding r using tp by blast
  show "mev_method (last (pending (route P clock T ev))) = Trigger" unfolding r using tp by blast
  show "mev_event (last (pending (route P clock T ev)))
           = (if py_eq (dget (raw ev) ''side'') (PInt 1) \<or> py_eq (dget (raw ev) ''side'') (PInt 3)
              then Buy else Sell)" unfolding r using tp by blast
  show "mev_closed (last (pending (route P clock T ev))) = truthy (dget (raw ev) ''reduceOnly'')"
    unfolding r using tp by blast
  show "mev_pos_side (last (pending (route P clock T ev)))
           = Some (if truthy (dget (raw ev) ''reduceOnly'') then opposite d else d)"
    unfolding r using tp by blast
qed

text \<open>
  Claim C4 as stated fails: a \<^verbatim>\<open>trigger_filled\<close> event whose symbol is empty is dropped,
  and no event is emitted.
\<close>

theorem trigger_fill_counterexample:
  "pending (route no_numeric_strings 1700000000005 idle_translator
      (order_event [] (Some SHORT) ''trigger_filled''
         [''orderType'' \<mapsto> PInt 2, ''state'' \<mapsto> PInt 3, ''side'' \<mapsto> PInt 1,
          ''reduceOnly'' \<mapsto> PBool True])) = []"
  by (simp add: route_def order_event_def idle_translator_def)

text \<open>
  The literal example of the claim: side 1 with \<^verbatim>\<open>reduceOnly\<close> on a SHORT gives
  \<^verbatim>\<open>{buy, trigger, LONG, closed: true}\<close>; the same event without a position side leaves the
  idle translator idle.
\<close>

theorem trigger_fill_translation_witness:
  "map (\<lambda>e. (mev_event e, mev_method e, mev_pos_side e, mev_closed e))
     (pending (route no_numeric_strings 1700000000005 idle_translator
       (order_event ''BTC_USDT'' (Some SHORT) ''trigger_filled''
         [''orderType'' \<mapsto> PInt 2, ''state'' \<mapsto> PInt 3, ''side'' \<mapsto> PInt 1,
          ''reduceOnly'' \<mapsto> PBool True])))
   = [(Buy, Trigger, Some LONG, True)]
   \<and> route no_numeric_strings 1700000000005 idle_translator
       (order_event ''BTC_USDT'' None ''trigger_filled''
         [''orderType'' \<mapsto> PInt 2, ''state'' \<mapsto> PInt 3, ''side'' \<mapsto> PInt 1,
          ''reduceOnly'' \<mapsto> PBool True])
     = idle_translator"
  using trigger_fill_translation [of
      "order_event ''BTC_USDT'' (Some SHORT) ''trigger_filled''
         [''orderType'' \<mapsto> PInt 2, ''state'' \<mapsto> PInt 3, ''side'' \<mapsto> PInt 1,
          ''reduceOnly'' \<mapsto> PBool True]" no_numeric_strings 1700000000005 idle_translator]
    trigger_fill_translation [of
      "order_event ''BTC_USDT'' None ''trigger_filled''
         [''orderType'' \<mapsto> PInt 2, ''state'' \<mapsto> PInt 3, ''side'' \<mapsto> PInt 1,
          ''reduceOnly'' \<mapsto> PBool True]" no_numeric_strings 1700000000005 idle_translator]
  by (simp add: route_def order_event_def idle_translator_def route_trigger_filled_def emit_def
      inject_oco_from_intent_def dget_def py_eq_def Let_def)

lemma first_exchange_ts_skip:
  "\<not> positive_number (dget r k) \<Longrightarrow> first_exchange_ts r (k # keys) = first_exchange_ts r keys"
  by (cases "dget r k") (auto simp: positive_number_def split: if_splits)

lemma exchange_ms_positive:
  "positive_number v \<Longrightarrow> \<exists>t. exchange_ms v = Some t"
  by (cases v) (auto simp: positive_number_def split: if_splits)

lemma first_exchange_ts_first:
  assumes "\<forall>k' \<in> set pre. \<not> positive_number (dget r k')"
    and "positive_number (dget r k)"
  shows "first_exchange_ts r (pre @ k # post) = exchange_ms (dget r k)"
  using assms
proof (induction pre)
  case Nil
  then show ?case using exchange_ms_positive [of "dget r k"] by auto
next
  case (Cons a pre)
  have "\<not> positive_number (dget r a)" using Cons.prems(1) by simp
  then have "first_exchange_ts r ((a # pre) @ k # post) = first_exchange_ts r (pre @ k # post)"
    by (simp add: first_exchange_ts_skip del: first_exchange_ts.simps)
  also have "\<dots> = exchange_ms (dget r k)"
    using Cons by simp
  finally show ?case .
qed

lemma route_appends:
  "pending (route P clock T ev) = pending T \<or>
   (\<exists>e p. pending (route P clock T ev) = pending T @ [e]
      \<and> mev_ts e = emit_ts clock (extract_exchange_ts ev) (ev_ts ev)
      \<and> mev_payload e = Some p
      \<and> p ''exec_ts'' = Some (case extract_exchange_ts ev of Some x \<Rightarrow> PInt x | None \<Rightarrow> PNone))"
  by (simp add: route_def Let_def route_oco_def route_market_filled_def route_limit_filled_def
      route_limit_placed_def route_trigger_filled_def route_cancel_def pending_emit
      split: option.splits prod.splits)

lemma small_float_ms: "exchange_ms (PFloat (1 / 2048)) = Some 0"
  by code_simp

lemma float_seconds_ms:
  "exchange_ms (PFloat (7130316800515899 / 4194304)) = Some 1700000000123"
  by code_simp


lemma first_exchange_ts_none:
  "\<forall>k \<in> set keys. \<not> positive_number (dget r k) \<Longrightarrow> first_exchange_ts r keys = None"
proof (induction keys)
  case Nil
  then show ?case by simp
next
  case (Cons a keys)
  have "\<not> positive_number (dget r a)" using Cons.prems by simp
  then have "first_exchange_ts r (a # keys) = first_exchange_ts r keys"
    by (rule first_exchange_ts_skip)
  then show ?case using Cons by simp
qed

lemma exchange_ms_int:
  "positive_number (PInt i) \<Longrightarrow> exchange_ms (PInt i) = Some (if i < 10000000000 then i * 1000 else i)"
  by (simp add: positive_number_def)

lemma exchange_ms_float:
  "positive_number (PFloat r) \<Longrightarrow>
   exchange_ms (PFloat r) = Some (py_trunc (if r < 10000000000 then float_times r 1000 else r))"
  by (simp add: positive_number_def)

text \<open>
  Claim C8, amended.  Take an event for which the translator emits a \<^verbatim>\<open>MasterEvent\<close>.  When
  none of the five keys holds a positive number, \<^verbatim>\<open>exec_ts\<close> is \<^verbatim>\<open>None\<close>, the payload carries
  \<^verbatim>\<open>None\<close> and \<^verbatim>\<open>ts\<close> is the translator's clock.  When \<open>k\<close> is the first of the five keys
  whose raw value is a positive number, \<^verbatim>\<open>exec_ts\<close> is computed from that value alone: an
  integer \<open>i\<close> gives \<open>i * 1000\<close> when \<open>i < 10\<^sup>1\<^sup>0\<close> and \<open>i\<close> otherwise; a float \<open>r\<close> gives
  the double product \<open>r * 1000\<close> (rounded to the nearest double) when \<open>r < 10\<^sup>1\<^sup>0\<close> and \<open>r\<close>
  otherwise, cut towards zero to an integer.  The event's payload carries this \<^verbatim>\<open>exec_ts\<close>;
  the event's \<^verbatim>\<open>ts\<close> is \<^verbatim>\<open>min(exec_ts, tech_ts)\<close> when both are non-zero, and the
  translator's clock when one of them is zero.
\<close>

theorem emitted_timestamp_rule:
  assumes emitted: "pending (route P clock T ev) \<noteq> pending T"
  shows "butlast (pending (route P clock T ev)) = pending T
    \<and> ((\<forall>k \<in> set ts_keys. \<not> positive_number (dget (raw ev) k)) \<longrightarrow>
          extract_exchange_ts ev = None
        \<and> (\<exists>p. mev_payload (last (pending (route P clock T ev))) = Some p
              \<and> p ''exec_ts'' = Some PNone)
        \<and> mev_ts (last (pending (route P clock T ev))) = clock)
    \<and> (\<forall>pre k post. ts_keys = pre @ k # post
          \<and> (\<forall>k' \<in> set pre. \<not> positive_number (dget (raw ev) k'))
          \<and> positive_number (dget (raw ev) k) \<longrightarrow>
          (\<exists>exec_ts. extract_exchange_ts ev = Some exec_ts
            \<and> exchange_ms (dget (raw ev) k) = Some exec_ts
            \<and> (\<forall>i. dget (raw ev) k = PInt i \<longrightarrow>
                  exec_ts = (if i < 10000000000 then i * 1000 else i))
            \<and> (\<forall>r. dget (raw ev) k = PFloat r \<longrightarrow>
                  exec_ts = py_trunc (if r < 10000000000 then float_times r 1000 else r))
            \<and> (\<exists>p. mev_payload (last (pending (route P clock T ev))) = Some p
                  \<and> p ''exec_ts'' = Some (PInt exec_ts))
            \<and> (exec_ts \<noteq> 0 \<and> ev_ts ev \<noteq> 0 \<longrightarrow>
                  mev_ts (last (pending (route P clock T ev))) = min exec_ts (ev_ts ev))
            \<and> (exec_ts = 0 \<or> ev_ts ev = 0 \<longrightarrow>
                  mev_ts (last (pending (route P clock T ev))) = clock)))"
proof -
  obtain e p where e: "pending (route P clock T ev) = pending T @ [e]"
      "mev_ts e = emit_ts clock (extract_exchange_ts ev) (ev_ts ev)"
      "mev_payload e = Some p"
      "p ''exec_ts'' = Some (case extract_exchange_ts ev of Some x \<Rightarrow> PInt x | None \<Rightarrow> PNone)"
    using route_appends [of P clock T ev] emitted by blast
  have l: "last (pending (route P clock T ev)) = e" "butlast (pending (route P clock T ev)) = pending T"
    by (simp_all add: e(1))
  have none: "extract_exchange_ts ev = None
        \<and> (\<exists>p. mev_payload (last (pending (route P clock T ev))) = Some p
              \<and> p ''exec_ts'' = Some PNone)
        \<and> mev_ts (last (pending (route P clock T ev))) = clock"
    if "\<forall>k \<in> set ts_keys. \<not> positive_number (dget (raw ev) k)"
  proof -
    have "extract_exchange_ts ev = None"
      unfolding extract_exchange_ts_def using that by (rule first_exchange_ts_none)
    then show ?thesis using e(2-4) by (simp add: l emit_ts_def)
  qed
  have some: "\<exists>exec_ts. extract_exchange_ts ev = Some exec_ts
            \<and> exchange_ms (dget (raw ev) k) = Some exec_ts
            \<and> (\<forall>i. dget (raw ev) k = PInt i \<longrightarrow>
                  exec_ts = (if i < 10000000000 then i * 1000 else i))
            \<and> (\<forall>r. dget (raw ev) k = PFloat r \<longrightarrow>
                  exec_ts = py_trunc (if r < 10000000000 then float_times r 1000 else r))
            \<and> (\<exists>p. mev_payload (last (pending (route P clock T ev))) = Some p
                  \<and> p ''exec_ts'' = Some (PInt exec_ts))
            \<and> (exec_ts \<noteq> 0 \<and> ev_ts ev \<noteq> 0 \<longrightarrow>
                  mev_ts (last (pending (route P clock T ev))) = min exec_ts (ev_ts ev))
            \<and> (exec_ts = 0 \<or> ev_ts ev = 0 \<longrightarrow>
                  mev_ts (last (pending (route P clock T ev))) = clock)"
    if first: "ts_keys = pre @ k # post"
      "\<forall>k' \<in> set pre. \<not> positive_number (dget (raw ev) k')"
      "positive_number (dget (raw ev) k)"
    for pre k post
  proof -
    have ex: "extract_exchange_ts ev = exchange_ms (dget (raw ev) k)"
      unfolding extract_exchange_ts_def first(1) using first(2,3) by (rule first_exchange_ts_first)
    obtain t where t: "exchange_ms (dget (raw ev) k) = Some t"
      using exchange_ms_positive [OF first(3)] by blast
    have ints: "\<forall>i. dget (raw ev) k = PInt i \<longrightarrow> t = (if i < 10000000000 then i * 1000 else i)"
      using t first(3) exchange_ms_int by auto
    have floats: "\<forall>r. dget (raw ev) k = PFloat r \<longrightarrow>
        t = py_trunc (if r < 10000000000 then float_times r 1000 else r)"
      using t first(3) exchange_ms_float by auto
    have pay: "\<exists>p. mev_payload (last (pending (route P clock T ev))) = Some p
                  \<and> p ''exec_ts'' = Some (PInt t)"
      using e(3,4) by (simp add: l ex t)
    have ts1: "t \<noteq> 0 \<and> ev_ts ev \<noteq> 0 \<longrightarrow>
                  mev_ts (last (pending (route P clock T ev))) = min t (ev_ts ev)"
      using e(2) by (simp add: l ex t emit_ts_def)
    have ts2: "t = 0 \<or> ev_ts ev = 0 \<longrightarrow> mev_ts (last (pending (route P clock T ev))) = clock"
      using e(2) by (auto simp: l ex t emit_ts_def)
    show ?thesis using ex t ints floats pay ts1 ts2 by (intro exI [of _ t]) simp
  qed
  show ?thesis using l(2) none some by blast
qed

text \<open>
  Claim C8 as stated fails: the positive number \<open>1/2048\<close> gives \<^verbatim>\<open>exec_ts = 0\<close> (the product
  \<open>1000/2048\<close> is a double, so nothing is rounded), which the test \<^verbatim>\<open>if exec_ts and tech_ts\<close>
  takes for a missing one, and \<^verbatim>\<open>ts\<close> stays the clock, not the minimum.
\<close>

theorem emitted_timestamp_counterexample:
  "extract_exchange_ts (order_event ''BTC_USDT'' (Some LONG) ''market_filled''
       [''orderId'' \<mapsto> PStr ''A'', ''side'' \<mapsto> PInt 1, ''updateTime'' \<mapsto> PFloat (1 / 2048)]) = Some 0
   \<and> ev_ts (order_event ''BTC_USDT'' (Some LONG) ''market_filled''
       [''orderId'' \<mapsto> PStr ''A'', ''side'' \<mapsto> PInt 1, ''updateTime'' \<mapsto> PFloat (1 / 2048)]) = 1700000000000
   \<and> map mev_ts (pending (route no_numeric_strings 1700000000005 idle_translator
        (order_event ''BTC_USDT'' (Some LONG) ''market_filled''
          [''orderId'' \<mapsto> PStr ''A'', ''side'' \<mapsto> PInt 1, ''updateTime'' \<mapsto> PFloat (1 / 2048)])))
      = [1700000000005]
   \<and> min 0 1700000000000 \<noteq> (1700000000005 :: int)"
  by (simp add: extract_exchange_ts_def ts_keys_def route_def order_event_def idle_translator_def
      route_market_filled_def emit_def emit_ts_def inject_oco_from_intent_def dget_def
      small_float_ms Let_def del: exchange_ms.simps)

lemma seconds_event_fields:
  "dget (raw (order_event ''BTC_USDT'' (Some LONG) ''market_filled''
          [''orderId'' \<mapsto> PStr ''A'', ''side'' \<mapsto> PInt 1, ''updateTime'' \<mapsto> PInt 1700000000]))
      ''updateTime'' = PInt 1700000000"
  "ev_ts (order_event ''BTC_USDT'' (Some LONG) ''market_filled''
          [''orderId'' \<mapsto> PStr ''A'', ''side'' \<mapsto> PInt 1, ''updateTime'' \<mapsto> PInt 1700000000])
      = 1700000000000"
  by (simp_all add: order_event_def dget_def)

lemma seconds_event_pending:
  "map mev_ts (pending (route no_numeric_strings 1700000000005 idle_translator
        (order_event ''BTC_USDT'' (Some LONG) ''market_filled''
          [''orderId'' \<mapsto> PStr ''A'', ''side'' \<mapsto> PInt 1, ''updateTime'' \<mapsto> PInt 1700000000])))
      = [1700000000000]"
  by (simp add: extract_exchange_ts_def ts_keys_def route_def order_event_def idle_translator_def
      route_market_filled_def emit_def emit_ts_def inject_oco_from_intent_def dget_def
      Let_def)

theorem emitted_timestamp_rule_witness:
  "pending (route no_numeric_strings 1700000000005 idle_translator
        (order_event ''BTC_USDT'' (Some LONG) ''market_filled''
          [''orderId'' \<mapsto> PStr ''A'', ''side'' \<mapsto> PInt 1, ''updateTime'' \<mapsto> PInt 1700000000]))
     \<noteq> pending idle_translator
   \<and> positive_number (PInt 1700000000)
   \<and> extract_exchange_ts (order_event ''BTC_USDT'' (Some LONG) ''market_filled''
          [''orderId'' \<mapsto> PStr ''A'', ''side'' \<mapsto> PInt 1, ''updateTime'' \<mapsto> PInt 1700000000])
      = Some 1700000000000
   \<and> ev_ts (order_event ''BTC_USDT'' (Some LONG) ''market_filled''
          [''orderId'' \<mapsto> PStr ''A'', ''side'' \<mapsto> PInt 1, ''updateTime'' \<mapsto> PInt 1700000000])
      = 1700000000000
   \<and> mev_ts (last (pending (route no_numeric_strings 1700000000005 idle_translator
        (order_event ''BTC_USDT'' (Some LONG) ''market_filled''
          [''orderId'' \<mapsto> PStr ''A'', ''side'' \<mapsto> PInt 1, ''updateTime'' \<mapsto> PInt 1700000000]))))
      = min 1700000000000 1700000000000"
proof -
  let ?ev = "order_event ''BTC_USDT'' (Some LONG) ''market_filled''
          [''orderId'' \<mapsto> PStr ''A'', ''side'' \<mapsto> PInt 1, ''updateTime'' \<mapsto> PInt 1700000000]"
  let ?T = "route no_numeric_strings 1700000000005 idle_translator ?ev"
  have emitted: "pending ?T \<noteq> pending idle_translator"
    using seconds_event_pending by (auto simp: idle_translator_def)
  have keys: "ts_keys = [] @ ''updateTime'' # [''createTime'', ''timestamp'', ''time'', ''ts'']"
    by (simp add: ts_keys_def)
  have none_before: "\<forall>k' \<in> set []. \<not> positive_number (dget (raw ?ev) k')"
    by simp
  have pos: "positive_number (PInt 1700000000)"
    by (simp add: positive_number_def)
  have pos': "positive_number (dget (raw ?ev) ''updateTime'')"
    using pos by (simp only: seconds_event_fields(1))
  note rule = emitted_timestamp_rule [OF emitted, THEN conjunct2, THEN conjunct2, rule_format,
      of "[]" "''updateTime''" "[''createTime'', ''timestamp'', ''time'', ''ts'']",
      OF conjI [OF keys conjI [OF none_before pos']]]
  obtain t where t: "extract_exchange_ts ?ev = Some t"
      "\<forall>i. dget (raw ?ev) ''updateTime'' = PInt i \<longrightarrow> t = (if i < 10000000000 then i * 1000 else i)"
      "t \<noteq> 0 \<and> ev_ts ?ev \<noteq> 0 \<longrightarrow> mev_ts (last (pending ?T)) = min t (ev_ts ?ev)"
    using rule by blast
  have tv: "t = 1700000000000"
    using t(2) seconds_event_fields(1) by simp
  have "mev_ts (last (pending ?T)) = min 1700000000000 (ev_ts ?ev)"
    using t(3) seconds_event_fields(2) by (simp add: tv)
  then show ?thesis
    using emitted pos t(1) seconds_event_fields(2) by (simp add: tv)
qed

section \<open>Cancelling a copied order\<close>

lemma order_lookup_remove: "order_lookup (order_remove m oid) oid = None"
  by (induction m) (auto simp: order_remove_def)

lemma order_remove_idem: "order_remove (order_remove m oid) oid = order_remove m oid"
  by (simp add: order_remove_def)

lemma cancel_one_hit:
  assumes "order_lookup m oid = Some r" "truthy (copy_order_id r)"
  shows "cancel_one cid mev ok st oid (Some m) put call miss failed canceled =
     st\<lparr> orders := put (Some (order_remove m oid)),
         api_calls := api_calls st @ [call (copy_order_id r)],
         log_events := log_events st @
           [(cid, (if ok then canceled else failed) (mev_symbol mev) (mev_pos_side mev) (copy_order_id r))] \<rparr>"
  using assms by (simp add: cancel_one_def Let_def)

lemma cancel_one_miss:
  assumes "order_lookup m oid = None"
  shows "cancel_one cid mev ok st oid (Some m) put call miss failed canceled =
     st\<lparr> orders := put (Some (order_remove m oid)),
         log_events := log_events st @ [(cid, miss (mev_symbol mev) (mev_pos_side mev) oid)] \<rparr>"
  using assms by (simp add: cancel_one_def Let_def)


lemma cancel_executor_no_copy:
  assumes "mev_payload mev = Some payload"
    and "\<not> truthy (dget payload ''order_id'')
         \<or> recorded_copy (mev_method mev) (orders st) (dget payload ''order_id'') = None"
  shows "\<exists>st1. cancel_executor cid mev ok st = Inr st1 \<and> api_calls st1 = api_calls st
      \<and> (\<not> truthy (dget payload ''order_id'')
         \<or> recorded_copy (mev_method mev) (orders st1) (dget payload ''order_id'') = None)"
proof (cases "truthy (dget payload ''order_id'')")
  case False
  then show ?thesis using assms(1) by (simp add: cancel_executor_def)
next
  case True
  then have none: "recorded_copy (mev_method mev) (orders st) (dget payload ''order_id'') = None"
    using assms(2) by simp
  show ?thesis
  proof (cases "mev_method mev")
    case Market
    then show ?thesis using assms(1) True none by (simp add: cancel_executor_def)
  next
    case Limit
    then show ?thesis using assms(1) True none
      by (auto simp: cancel_executor_def cancel_one_def recorded_copy_def method_root_def Let_def
          order_lookup_remove split: option.splits if_splits)
  next
    case Trigger
    then show ?thesis using assms(1) True none
      by (auto simp: cancel_executor_def cancel_one_def recorded_copy_def method_root_def Let_def
          order_lookup_remove split: option.splits if_splits)
  qed
qed

lemma cancel_twice_hit:
  assumes payload: "mev_payload mev = Some payload" "truthy (dget payload ''order_id'')"
    and meth: "mev_method mev = Limit \<or> mev_method mev = Trigger"
    and entry: "method_root (mev_method mev) (orders st) = Some m"
      "order_lookup m (dget payload ''order_id'') = Some r" "truthy (copy_order_id r)"
  shows "\<exists>st1 st2. cancel_executor cid mev reply1 st = Inr st1
      \<and> cancel_executor cid mev reply2 st1 = Inr st2
      \<and> cancel_twice cid mev reply1 reply2 st = Inr st2
      \<and> api_calls st1 = api_calls st @
           [if mev_method mev = Limit then CancelLimitOrders [copy_order_id r]
            else CancelTriggerOrder [copy_order_id r] (mev_symbol mev)]
      \<and> method_root (mev_method mev) (orders st1) = Some (order_remove m (dget payload ''order_id''))
      \<and> order_lookup (order_remove m (dget payload ''order_id'')) (dget payload ''order_id'') = None
      \<and> api_calls st2 = api_calls st1
      \<and> orders st2 = orders st1
      \<and> log_events st2 = log_events st1 @
           [(cid, (if mev_method mev = Limit then LimitCancelMiss else TriggerCancelMiss)
                    (mev_symbol mev) (mev_pos_side mev) (dget payload ''order_id''))]"
proof -
  let ?oid = "dget payload ''order_id''"
  have miss: "order_lookup (order_remove m ?oid) ?oid = None"
    by (rule order_lookup_remove)
  from meth show ?thesis
  proof
    assume lim: "mev_method mev = Limit"
    then have root: "limit_root (orders st) = Some m"
      using entry(1) by (simp add: method_root_def)
    show ?thesis
      using payload lim root entry(2,3) miss
      by (simp add: cancel_twice_def cancel_executor_def Let_def cancel_one_hit cancel_one_miss
          method_root_def order_remove_idem)
  next
    assume trg: "mev_method mev = Trigger"
    then have root: "trigger_root (orders st) = Some m"
      using entry(1) by (simp add: method_root_def)
    show ?thesis
      using payload trg root entry(2,3) miss
      by (simp add: cancel_twice_def cancel_executor_def Let_def cancel_one_hit cancel_one_miss
          method_root_def order_remove_idem)
  qed
qed


lemma cancel_twice_no_copy:
  assumes "mev_payload mev = Some payload"
    and "\<not> truthy (dget payload ''order_id'')
         \<or> recorded_copy (mev_method mev) (orders st) (dget payload ''order_id'') = None"
  shows "\<exists>st1 st2. cancel_executor cid mev reply1 st = Inr st1
      \<and> cancel_executor cid mev reply2 st1 = Inr st2
      \<and> cancel_twice cid mev reply1 reply2 st = Inr st2
      \<and> api_calls st1 = api_calls st \<and> api_calls st2 = api_calls st"
proof -
  obtain st1 where st1: "cancel_executor cid mev reply1 st = Inr st1" "api_calls st1 = api_calls st"
      "\<not> truthy (dget payload ''order_id'')
         \<or> recorded_copy (mev_method mev) (orders st1) (dget payload ''order_id'') = None"
    using cancel_executor_no_copy [OF assms] by blast
  obtain st2 where st2: "cancel_executor cid mev reply2 st1 = Inr st2" "api_calls st2 = api_calls st1"
    using cancel_executor_no_copy [OF assms(1) st1(3)] by blast
  show ?thesis using st1(1,2) st2 by (simp add: cancel_twice_def)
qed

text \<open>
  Claim C7, amended.  Take a \<^verbatim>\<open>canceled\<close> event that has a payload.  When its order id is
  non-empty, its method is \<^verbatim>\<open>limit\<close> or \<^verbatim>\<open>trigger\<close>, and the order map of that method
  holds an entry for the order id with a non-empty \<^verbatim>\<open>copy_order_id\<close>, handling the event
  twice makes exactly one cancel call: the first handling removes the entry and issues the
  call; the second finds no entry, logs a \<^verbatim>\<open>CANCEL MISS\<close> line, makes no call and leaves
  the order maps as they are.  When the order id is empty, or the order map of the event's
  method holds no entry for it, or holds one without a \<^verbatim>\<open>copy_order_id\<close>, neither handling
  makes a call.
\<close>

theorem cancel_twice_one_call:
  assumes payload: "mev_payload mev = Some payload"
  shows "(\<forall>m r. truthy (dget payload ''order_id'')
        \<and> (mev_method mev = Limit \<or> mev_method mev = Trigger)
        \<and> method_root (mev_method mev) (orders st) = Some m
        \<and> order_lookup m (dget payload ''order_id'') = Some r \<and> truthy (copy_order_id r) \<longrightarrow>
      (\<exists>st1 st2. cancel_executor cid mev reply1 st = Inr st1
        \<and> cancel_executor cid mev reply2 st1 = Inr st2
        \<and> cancel_twice cid mev reply1 reply2 st = Inr st2
        \<and> api_calls st1 = api_calls st @
             [if mev_method mev = Limit then CancelLimitOrders [copy_order_id r]
              else CancelTriggerOrder [copy_order_id r] (mev_symbol mev)]
        \<and> method_root (mev_method mev) (orders st1) = Some (order_remove m (dget payload ''order_id''))
        \<and> order_lookup (order_remove m (dget payload ''order_id'')) (dget payload ''order_id'') = None
        \<and> api_calls st2 = api_calls st1
        \<and> orders st2 = orders st1
        \<and> log_events st2 = log_events st1 @
             [(cid, (if mev_method mev = Limit then LimitCancelMiss else TriggerCancelMiss)
                      (mev_symbol mev) (mev_pos_side mev) (dget payload ''order_id''))]))
    \<and> (\<not> truthy (dget payload ''order_id'')
        \<or> recorded_copy (mev_method mev) (orders st) (dget payload ''order_id'') = None \<longrightarrow>
      (\<exists>st1 st2. cancel_executor cid mev reply1 st = Inr st1
        \<and> cancel_executor cid mev reply2 st1 = Inr st2
        \<and> cancel_twice cid mev reply1 reply2 st = Inr st2
        \<and> api_calls st1 = api_calls st \<and> api_calls st2 = api_calls st))"
proof (intro conjI allI impI)
  fix m r
  assume h: "truthy (dget payload ''order_id'')
        \<and> (mev_method mev = Limit \<or> mev_method mev = Trigger)
        \<and> method_root (mev_method mev) (orders st) = Some m
        \<and> order_lookup m (dget payload ''order_id'') = Some r \<and> truthy (copy_order_id r)"
  show "\<exists>st1 st2. cancel_executor cid mev reply1 st = Inr st1
        \<and> cancel_executor cid mev reply2 st1 = Inr st2
        \<and> cancel_twice cid mev reply1 reply2 st = Inr st2
        \<and> api_calls st1 = api_calls st @
             [if mev_method mev = Limit then CancelLimitOrders [copy_order_id r]
              else CancelTriggerOrder [copy_order_id r] (mev_symbol mev)]
        \<and> method_root (mev_method mev) (orders st1) = Some (order_remove m (dget payload ''order_id''))
        \<and> order_lookup (order_remove m (dget payload ''order_id'')) (dget payload ''order_id'') = None
        \<and> api_calls st2 = api_calls st1
        \<and> orders st2 = orders st1
        \<and> log_events st2 = log_events st1 @
             [(cid, (if mev_method mev = Limit then LimitCancelMiss else TriggerCancelMiss)
                      (mev_symbol mev) (mev_pos_side mev) (dget payload ''order_id''))]"
    using h by (intro cancel_twice_hit [OF payload]) simp_all
next
  assume "\<not> truthy (dget payload ''order_id'')
        \<or> recorded_copy (mev_method mev) (orders st) (dget payload ''order_id'') = None"
  then show "\<exists>st1 st2. cancel_executor cid mev reply1 st = Inr st1
        \<and> cancel_executor cid mev reply2 st1 = Inr st2
        \<and> cancel_twice cid mev reply1 reply2 st = Inr st2
        \<and> api_calls st1 = api_calls st \<and> api_calls st2 = api_calls st"
    by (rule cancel_twice_no_copy [OF payload])
qed

text \<open>
  Claim C7 as stated fails: an entry recorded without a \<^verbatim>\<open>copy_order_id\<close> is removed by the
  first handling without any cancel call (\<^verbatim>\<open>if not copy_oid: return\<close>), so two handlings
  make no call at all.
\<close>

theorem cancel_twice_counterexample:
  "cancel_twice 3 cancel_m1 True True (copied_m1 PNone) =
     Inr \<lparr> orders = \<lparr> limit_root = Some [], trigger_root = None \<rparr>,
           log_events = [(3, LimitCancelMiss ''BTC_USDT'' (Some LONG) (PStr ''M1''))],
           api_calls = [] \<rparr>"
  by (simp add: cancel_twice_def cancel_executor_def cancel_one_def cancel_m1_def copied_m1_def
      dget_def py_eq_def order_remove_def Let_def)


text \<open>
  A recorded copy \<^verbatim>\<open>C77\<close> of the master's order \<^verbatim>\<open>M1\<close> is cancelled once by two handlings;
  with no order recorded at all, two handlings make no call.
\<close>

theorem cancel_twice_one_call_witness:
  "cancel_twice 3 cancel_m1 True True (copied_m1 (PStr ''C77'')) =
     Inr \<lparr> orders = \<lparr> limit_root = Some [], trigger_root = None \<rparr>,
           log_events = [(3, LimitCanceled ''BTC_USDT'' (Some LONG) (PStr ''C77'')),
                         (3, LimitCancelMiss ''BTC_USDT'' (Some LONG) (PStr ''M1''))],
           api_calls = [CancelLimitOrders [PStr ''C77'']] \<rparr>
   \<and> cancel_twice 3 cancel_m1 True True
        \<lparr> orders = \<lparr> limit_root = Some [], trigger_root = None \<rparr>, log_events = [], api_calls = [] \<rparr> =
     Inr \<lparr> orders = \<lparr> limit_root = Some [], trigger_root = None \<rparr>,
           log_events = [(3, LimitCancelMiss ''BTC_USDT'' (Some LONG) (PStr ''M1'')),
                         (3, LimitCancelMiss ''BTC_USDT'' (Some LONG) (PStr ''M1''))],
           api_calls = [] \<rparr>"
  using cancel_twice_one_call [of cancel_m1 "[''order_id'' \<mapsto> PStr ''M1'', ''exec_ts'' \<mapsto> PInt 1700000000000]"
      "copied_m1 (PStr ''C77'')" 3 True True]
    cancel_twice_one_call [of cancel_m1 "[''order_id'' \<mapsto> PStr ''M1'', ''exec_ts'' \<mapsto> PInt 1700000000000]"
      "\<lparr> orders = \<lparr> limit_root = Some [], trigger_root = None \<rparr>, log_events = [], api_calls = [] \<rparr>"
      3 True True]
  by (simp add: cancel_twice_def cancel_executor_def cancel_one_def cancel_m1_def copied_m1_def
      dget_def py_eq_def order_remove_def method_root_def recorded_copy_def Let_def)

section \<open>Manual close\<close>

lemma mev_key_close_event: "mev_key (close_event ts cid symbol d pv) = (Some cid, symbol, Some d)"
  by (simp add: mev_key_def close_event_def)

lemma expand_sides_Nil: "expand_sides ts cid symbol [] = []"
  by (simp add: expand_sides_def)

lemma expand_sides_Cons:
  "expand_sides ts cid symbol ((d, pv) # sides) =
     (if in_position pv \<and> qty pv > 0 then [close_event ts cid symbol d pv] else [])
       @ expand_sides ts cid symbol sides"
  by (auto simp: expand_sides_def)

lemma filter_expand_sides_other:
  "d \<notin> fst ` set sides \<Longrightarrow>
   filter (\<lambda>e. mev_key e = (Some c, s, Some d)) (expand_sides ts c' s' sides) = []"
  by (induction sides) (auto simp: expand_sides_Nil expand_sides_Cons mev_key_close_event)

lemma filter_expand_sides:
  assumes "distinct (map fst sides)"
  shows "filter (\<lambda>e. mev_key e = (Some c, s, Some d)) (expand_sides ts c' s' sides) =
     (if c = c' \<and> s = s' then
        (case map_of sides d of
           Some pv \<Rightarrow> if in_position pv \<and> qty pv > 0 then [close_event ts c s d pv] else []
         | None \<Rightarrow> [])
      else [])"
  using assms
proof (induction sides)
  case Nil
  show ?case by (simp add: expand_sides_Nil)
next
  case (Cons a sides)
  obtain d' pv where a: "a = (d', pv)" by (cases a)
  have dist: "distinct (map fst sides)" and fresh: "d' \<notin> fst ` set sides"
    using Cons.prems a by auto
  show ?case
  proof (cases "d' = d")
    case True
    have "filter (\<lambda>e. mev_key e = (Some c, s, Some d)) (expand_sides ts c' s' sides) = []"
      using fresh True by (intro filter_expand_sides_other) simp
    then show ?thesis using True a
      by (auto simp: expand_sides_Cons mev_key_close_event)
  next
    case False
    then show ?thesis using a Cons.IH [OF dist]
      by (auto simp: expand_sides_Cons mev_key_close_event)
  qed
qed

lemma expand_pvs_Nil: "expand_pvs ts cid [] = []"
  by (simp add: expand_pvs_def)

lemma expand_pvs_Cons:
  "expand_pvs ts cid ((symbol, sides) # pvs) = expand_sides ts cid symbol sides @ expand_pvs ts cid pvs"
  by (simp add: expand_pvs_def)

lemma filter_expand_sides_symbol:
  "s \<noteq> s' \<Longrightarrow> filter (\<lambda>e. mev_key e = (Some c, s, Some d)) (expand_sides ts c' s' sides) = []"
  by (induction sides) (auto simp: expand_sides_Nil expand_sides_Cons mev_key_close_event)

lemma filter_expand_pvs_other:
  "s \<notin> fst ` set pvs \<Longrightarrow>
   filter (\<lambda>e. mev_key e = (Some c, s, Some d)) (expand_pvs ts c' pvs) = []"
proof (induction pvs)
  case Nil
  show ?case by (simp add: expand_pvs_Nil)
next
  case (Cons a pvs)
  obtain s' sides where a: "a = (s', sides)" by (cases a)
  have "s \<noteq> s'" and "s \<notin> fst ` set pvs" using Cons.prems a by auto
  then show ?case using a Cons.IH
    by (simp add: expand_pvs_Cons filter_expand_sides_symbol)
qed

lemma filter_expand_pvs:
  assumes "dict_keys_distinct pvs"
  shows "filter (\<lambda>e. mev_key e = (Some c, s, Some d)) (expand_pvs ts c' pvs) =
     (if c = c' then
        (case pv_lookup pvs s d of
           Some pv \<Rightarrow> if in_position pv \<and> qty pv > 0 then [close_event ts c s d pv] else []
         | None \<Rightarrow> [])
      else [])"
  using assms
proof (induction pvs)
  case Nil
  show ?case by (simp add: expand_pvs_Nil pv_lookup_def)
next
  case (Cons a pvs)
  obtain s' sides where a: "a = (s', sides)" by (cases a)
  have dist: "distinct (map fst sides)" and rest: "dict_keys_distinct pvs"
    and fresh: "s' \<notin> fst ` set pvs"
    using Cons.prems a by (auto simp: dict_keys_distinct_def)
  show ?case
  proof (cases "s' = s")
    case True
    have "filter (\<lambda>e. mev_key e = (Some c, s, Some d)) (expand_pvs ts c' pvs) = []"
      using fresh True by (intro filter_expand_pvs_other) simp
    then show ?thesis using True a
      by (simp add: expand_pvs_Cons filter_expand_sides [OF dist] pv_lookup_def)
  next
    case False
    then have "filter (\<lambda>e. mev_key e = (Some c, s, Some d)) (expand_sides ts c' s' sides) = []"
      by (intro filter_expand_sides_symbol) simp
    then show ?thesis using False a Cons.IH [OF rest]
      by (simp add: expand_pvs_Cons pv_lookup_def)
  qed
qed


text \<open>The loop over the follower ids, for any list of ids.\<close>

lemma filter_expand_ids:
  assumes wf: "\<forall>cid rt. copy_runtime_states mc cid = Some rt \<longrightarrow> dict_keys_distinct (position_vars rt)"
  shows "filter (\<lambda>e. mev_key e = (Some c, s, Some d))
       (concat (map (\<lambda>cid. case ensure_copy_state mc cid of None \<Rightarrow> []
                          | Some rt \<Rightarrow> expand_pvs ts cid (position_vars rt)) ids))
     = (case open_pv mc c s d of
          Some pv \<Rightarrow> replicate (count_list ids c) (close_event ts c s d pv)
        | None \<Rightarrow> [])"
proof (induction ids)
  case Nil
  show ?case by (simp split: option.splits)
next
  case (Cons a ids)
  have one: "filter (\<lambda>e. mev_key e = (Some c, s, Some d))
       (case ensure_copy_state mc a of None \<Rightarrow> [] | Some rt \<Rightarrow> expand_pvs ts a (position_vars rt))
     = (if c = a then (case open_pv mc c s d of Some pv \<Rightarrow> [close_event ts c s d pv] | None \<Rightarrow> [])
        else [])"
  proof (cases "ensure_copy_state mc a")
    case None
    then show ?thesis by (simp add: open_pv_def)
  next
    case (Some rt)
    then have "copy_runtime_states mc a = Some rt"
      by (auto simp: ensure_copy_state_def split: option.splits if_splits)
    then have "dict_keys_distinct (position_vars rt)" using wf by blast
    then show ?thesis using Some
      by (simp add: filter_expand_pvs open_pv_def split: option.splits)
  qed
  show ?case
    using Cons.IH one by (simp split: option.splits)
qed

lemma events_are_close_events:
  "e \<in> set (expand_manual_close mc mev) \<Longrightarrow>
   \<exists>cid symbol d pv. e = close_event (mev_ts mev) cid symbol d pv"
  by (fastforce simp: expand_manual_close_def expand_pvs_def expand_sides_def
      split: option.splits if_splits)

lemma on_close_effect:
  assumes "filter (\<lambda>cid. cid \<noteq> 0) ids \<noteq> []" "out_queue mc = Some q"
  shows "on_close False now_ts ids mc =
     mc\<lparr> ui_log := ui_log mc @ [(0, CloseIntent (filter (\<lambda>cid. cid \<noteq> 0) ids))],
         cmd_ids := filter (\<lambda>cid. cid \<noteq> 0) ids,
         out_queue := Some (q @ [synthetic_close now_ts]) \<rparr>"
  using assms by (simp add: on_close_def Let_def)

lemma ensure_copy_state_cong:
  "copy_runtime_states mc' = copy_runtime_states mc \<Longrightarrow> ensure_copy_state mc' = ensure_copy_state mc"
  by (rule ext) (simp add: ensure_copy_state_def)

lemma open_pv_cong:
  "copy_runtime_states mc' = copy_runtime_states mc \<Longrightarrow> open_pv mc' = open_pv mc"
  using ensure_copy_state_cong [of mc' mc] by (intro ext) (simp add: open_pv_def)

lemma count_list_distinct: "distinct xs \<Longrightarrow> x \<in> set xs \<Longrightarrow> count_list xs x = 1"
  by (induction xs) auto


lemma expand_manual_close_cong:
  "copy_runtime_states mc' = copy_runtime_states mc \<Longrightarrow> cmd_ids mc' = cmd_ids mc \<Longrightarrow>
   expand_manual_close mc' mev = expand_manual_close mc mev"
  using ensure_copy_state_cong [of mc' mc] by (simp add: expand_manual_close_def)

lemma open_pv_follower_pv:
  assumes "\<forall>cid rt. copy_runtime_states mc cid = Some rt \<longrightarrow> runtime_wf rt"
  shows "open_pv mc cid symbol d =
     (case follower_pv mc cid symbol d of
        Some pv \<Rightarrow> if in_position pv \<and> qty pv > 0 then Some pv else None
      | None \<Rightarrow> None)"
proof (cases "copy_runtime_states mc cid")
  case None
  then show ?thesis by (simp add: open_pv_def follower_pv_def ensure_copy_state_def)
next
  case (Some rt)
  then have "runtime_wf rt" using assms by blast
  then have "init_state rt = ''READY'' \<and> network_ready rt \<or> position_vars rt = []"
    by (simp add: runtime_wf_def)
  then show ?thesis
  proof
    assume "init_state rt = ''READY'' \<and> network_ready rt"
    then show ?thesis using Some
      by (simp add: open_pv_def follower_pv_def ensure_copy_state_def)
  next
    assume "position_vars rt = []"
    then show ?thesis using Some
      by (simp add: open_pv_def follower_pv_def ensure_copy_state_def pv_lookup_def)
  qed
qed

text \<open>
  Claim C3, amended.  A manual-close request over follower ids without repetition, with
  at least one id other than 0, made while the stop flag is off and the translator is
  attached, leaves the ids without 0 in \<^verbatim>\<open>cmd_ids\<close> and queues one synthetic manual event.
  When the dispatcher takes that event from the head of the queue with \<^verbatim>\<open>cmd_ids\<close> still
  as the request left it, and every runtime is as the code keeps it, the events it hands
  to the executor hold, for each follower, symbol and side, exactly one event when the
  follower is listed, is not 0 and its PV is in position with a positive quantity, and
  none otherwise.  Every event handed over is such an event: manual, closed, bound to the
  follower by \<^verbatim>\<open>_cid\<close>, with the payload \<^verbatim>\<open>{qty, reduce_only: true, leverage, open_type}\<close> of
  the PV.  The dispatcher then leaves \<^verbatim>\<open>cmd_ids\<close> empty.
\<close>

theorem manual_close_expansion:
  assumes req: "filter (\<lambda>cid. cid \<noteq> 0) ids \<noteq> []" "out_queue mc = Some q" "distinct ids"
    and mc1: "mc1 = on_close False now_ts ids mc"
    and taken: "out_queue mc2 = Some (synthetic_close now_ts # rest)" "cmd_ids mc2 = cmd_ids mc1"
    and wf: "\<forall>cid rt. copy_runtime_states mc2 cid = Some rt \<longrightarrow> runtime_wf rt"
    and events: "events = expand_manual_close mc2 (synthetic_close now_ts)"
  shows "cmd_ids mc1 = filter (\<lambda>cid. cid \<noteq> 0) ids
    \<and> 0 \<notin> set (cmd_ids mc1)
    \<and> out_queue mc1 = Some (q @ [synthetic_close now_ts])
    \<and> mev_sig_type (synthetic_close now_ts) = Manual
    \<and> signal_loop_step mc2 = Some (events, mc2\<lparr> out_queue := Some rest, cmd_ids := [] \<rparr>)
    \<and> (\<forall>cid symbol d. filter (\<lambda>e. mev_key e = (Some cid, symbol, Some d)) events =
          (case follower_pv mc2 cid symbol d of
             Some pv \<Rightarrow> if cid \<in> set ids \<and> cid \<noteq> 0 \<and> in_position pv \<and> qty pv > 0
                        then [close_event now_ts cid symbol d pv] else []
           | None \<Rightarrow> []))
    \<and> (\<forall>e \<in> set events. \<exists>cid symbol d pv.
          cid \<in> set ids \<and> cid \<noteq> 0 \<and> follower_pv mc2 cid symbol d = Some pv
          \<and> in_position pv \<and> qty pv > 0
          \<and> mev_cid e = Some cid \<and> mev_symbol e = symbol \<and> mev_pos_side e = Some d
          \<and> mev_sig_type e = Manual \<and> mev_closed e
          \<and> mev_payload e = Some
               [''qty'' \<mapsto> PFloat (qty pv),
                ''reduce_only'' \<mapsto> PBool True,
                ''leverage'' \<mapsto> (case leverage pv of Some l \<Rightarrow> PInt l | None \<Rightarrow> PNone),
                ''open_type'' \<mapsto> (case margin_mode pv of Some m \<Rightarrow> PInt m | None \<Rightarrow> PNone)])"
proof -
  let ?ids = "filter (\<lambda>cid. cid \<noteq> 0) ids"
  have eff: "mc1 = mc\<lparr> ui_log := ui_log mc @ [(0, CloseIntent ?ids)], cmd_ids := ?ids,
         out_queue := Some (q @ [synthetic_close now_ts]) \<rparr>"
    unfolding mc1 using req(1,2) by (rule on_close_effect)
  have ids1: "cmd_ids mc1 = ?ids" and queue1: "out_queue mc1 = Some (q @ [synthetic_close now_ts])"
    by (simp_all add: eff)
  have nozero: "0 \<notin> set (cmd_ids mc1)" by (simp add: ids1)
  have ids2: "cmd_ids mc2 = ?ids" using taken(2) ids1 by simp
  have ts: "mev_ts (synthetic_close now_ts) = now_ts" by (simp add: synthetic_close_def)
  have manual: "mev_sig_type (synthetic_close now_ts) = Manual"
    by (simp add: synthetic_close_def)
  have dk: "\<forall>cid rt. copy_runtime_states mc2 cid = Some rt \<longrightarrow> dict_keys_distinct (position_vars rt)"
    using wf by (auto simp: runtime_wf_def)
  have step: "signal_loop_step mc2 = Some (events, mc2\<lparr> out_queue := Some rest, cmd_ids := [] \<rparr>)"
  proof -
    have "expand_manual_close (mc2\<lparr> out_queue := Some rest \<rparr>) (synthetic_close now_ts) = events"
      unfolding events by (rule expand_manual_close_cong) simp_all
    then show ?thesis
      using taken(1) manual by (simp add: signal_loop_step_def dispatch_manual_def Let_def)
  qed
  have count: "filter (\<lambda>e. mev_key e = (Some cid, symbol, Some d)) events =
          (case open_pv mc2 cid symbol d of
             Some pv \<Rightarrow> replicate (count_list ?ids cid) (close_event now_ts cid symbol d pv)
           | None \<Rightarrow> [])" for cid symbol d
  proof -
    have "events = concat (map (\<lambda>cid. case ensure_copy_state mc2 cid of None \<Rightarrow> []
                          | Some rt \<Rightarrow> expand_pvs now_ts cid (position_vars rt)) ?ids)"
      by (simp only: events expand_manual_close_def ts ids2)
    then show ?thesis
      using filter_expand_ids [OF dk, of cid symbol d now_ts ?ids] by simp
  qed
  have cnt: "count_list ?ids cid = (if cid \<in> set ids \<and> cid \<noteq> 0 then 1 else 0)" for cid
  proof (cases "cid \<in> set ?ids")
    case True
    have "distinct ?ids" using req(3) by simp
    then have "count_list ?ids cid = 1" using True by (rule count_list_distinct)
    then show ?thesis using True by simp
  next
    case False
    then have "count_list ?ids cid = 0" by (simp add: count_list_0_iff)
    then show ?thesis using False by auto
  qed
  have exact: "filter (\<lambda>e. mev_key e = (Some cid, symbol, Some d)) events =
          (case follower_pv mc2 cid symbol d of
             Some pv \<Rightarrow> if cid \<in> set ids \<and> cid \<noteq> 0 \<and> in_position pv \<and> qty pv > 0
                        then [close_event now_ts cid symbol d pv] else []
           | None \<Rightarrow> [])" for cid symbol d
    unfolding count [of cid symbol d] open_pv_follower_pv [OF wf, of cid symbol d] cnt [of cid]
    by (simp split: option.splits)
  have sound: "\<exists>cid symbol d pv.
          cid \<in> set ids \<and> cid \<noteq> 0 \<and> follower_pv mc2 cid symbol d = Some pv
          \<and> in_position pv \<and> qty pv > 0
          \<and> mev_cid e = Some cid \<and> mev_symbol e = symbol \<and> mev_pos_side e = Some d
          \<and> mev_sig_type e = Manual \<and> mev_closed e
          \<and> mev_payload e = Some
               [''qty'' \<mapsto> PFloat (qty pv),
                ''reduce_only'' \<mapsto> PBool True,
                ''leverage'' \<mapsto> (case leverage pv of Some l \<Rightarrow> PInt l | None \<Rightarrow> PNone),
                ''open_type'' \<mapsto> (case margin_mode pv of Some m \<Rightarrow> PInt m | None \<Rightarrow> PNone)]"
    if e: "e \<in> set events" for e
  proof -
    obtain cid symbol d pv0 where ce: "e = close_event now_ts cid symbol d pv0"
      using events_are_close_events [of e mc2 "synthetic_close now_ts"] e
      by (auto simp: events ts)
    have "e \<in> set (filter (\<lambda>e. mev_key e = (Some cid, symbol, Some d)) events)"
      using e ce by (simp add: mev_key_close_event)
    then have fe: "e \<in> set (case follower_pv mc2 cid symbol d of
             Some pv \<Rightarrow> if cid \<in> set ids \<and> cid \<noteq> 0 \<and> in_position pv \<and> qty pv > 0
                        then [close_event now_ts cid symbol d pv] else []
           | None \<Rightarrow> [])"
      by (simp only: exact)
    then obtain pv where pv: "follower_pv mc2 cid symbol d = Some pv"
      by (cases "follower_pv mc2 cid symbol d") auto
    have mem: "e \<in> set (if cid \<in> set ids \<and> cid \<noteq> 0 \<and> in_position pv \<and> qty pv > 0
                        then [close_event now_ts cid symbol d pv] else [])"
      using fe by (simp only: pv option.case)
    have c: "cid \<in> set ids \<and> cid \<noteq> 0 \<and> in_position pv \<and> qty pv > 0"
      using mem by (auto split: if_splits)
    have e': "e = close_event now_ts cid symbol d pv"
      using mem c by simp
    show ?thesis
      using c pv by (auto simp: e' close_event_def)
  qed
  show ?thesis
  proof (intro conjI)
    show "cmd_ids mc1 = ?ids" by (rule ids1)
    show "0 \<notin> set (cmd_ids mc1)" by (rule nozero)
    show "out_queue mc1 = Some (q @ [synthetic_close now_ts])" by (rule queue1)
    show "mev_sig_type (synthetic_close now_ts) = Manual" by (rule manual)
    show "signal_loop_step mc2 = Some (events, mc2\<lparr> out_queue := Some rest, cmd_ids := [] \<rparr>)"
      by (rule step)
    show "\<forall>cid symbol d. filter (\<lambda>e. mev_key e = (Some cid, symbol, Some d)) events =
          (case follower_pv mc2 cid symbol d of
             Some pv \<Rightarrow> if cid \<in> set ids \<and> cid \<noteq> 0 \<and> in_position pv \<and> qty pv > 0
                        then [close_event now_ts cid symbol d pv] else []
           | None \<Rightarrow> [])"
      using exact by blast
    show "\<forall>e \<in> set events. \<exists>cid symbol d pv.
          cid \<in> set ids \<and> cid \<noteq> 0 \<and> follower_pv mc2 cid symbol d = Some pv
          \<and> in_position pv \<and> qty pv > 0
          \<and> mev_cid e = Some cid \<and> mev_symbol e = symbol \<and> mev_pos_side e = Some d
          \<and> mev_sig_type e = Manual \<and> mev_closed e
          \<and> mev_payload e = Some
               [''qty'' \<mapsto> PFloat (qty pv),
                ''reduce_only'' \<mapsto> PBool True,
                ''leverage'' \<mapsto> (case leverage pv of Some l \<Rightarrow> PInt l | None \<Rightarrow> PNone),
                ''open_type'' \<mapsto> (case margin_mode pv of Some m \<Rightarrow> PInt m | None \<Rightarrow> PNone)]"
      using sound by blast
  qed
qed

text \<open>
  Claim C3 as stated fails.  \<^verbatim>\<open>cmd_ids\<close> is one slot, written by every request and cleared
  after every expansion.  Follower 3 is ready and holds a long position.  A request for
  follower 3 and, 300 ms later, a request for follower 5 are both made before the
  dispatcher takes the first event (the first loop of \<^verbatim>\<open>signal_loop\<close> is still waiting for
  the master's trading to be enabled).  The first event is then expanded over \<open>[5]\<close>, the
  second over the cleared list, and the position of follower 3 gets no event.
\<close>

theorem manual_close_counterexample:
  "ensure_copy_state (follower3 ''READY'') 3 =
      Some \<lparr> init_state = ''READY'', network_ready = True,
             position_vars = [(''BTC_USDT'', [(LONG, btc_long_pv), (SHORT, base_template)])] \<rparr>
   \<and> in_position btc_long_pv \<and> qty btc_long_pv = 2
   \<and> cmd_ids (on_close False 1700000000000 [3] (follower3 ''READY'')) = [3]
   \<and> cmd_ids (on_close False 1700000000300 [5]
        (on_close False 1700000000000 [3] (follower3 ''READY''))) = [5]
   \<and> out_queue (on_close False 1700000000300 [5]
        (on_close False 1700000000000 [3] (follower3 ''READY'')))
      = Some [synthetic_close 1700000000000, synthetic_close 1700000000300]
   \<and> signal_loop_step (on_close False 1700000000300 [5]
        (on_close False 1700000000000 [3] (follower3 ''READY'')))
      = Some ([], (on_close False 1700000000300 [5]
                    (on_close False 1700000000000 [3] (follower3 ''READY'')))
                  \<lparr> out_queue := Some [synthetic_close 1700000000300], cmd_ids := [] \<rparr>)
   \<and> signal_loop_step ((on_close False 1700000000300 [5]
                    (on_close False 1700000000000 [3] (follower3 ''READY'')))
                  \<lparr> out_queue := Some [synthetic_close 1700000000300], cmd_ids := [] \<rparr>)
      = Some ([], (on_close False 1700000000300 [5]
                    (on_close False 1700000000000 [3] (follower3 ''READY'')))
                  \<lparr> out_queue := Some [], cmd_ids := [] \<rparr>)"
  by (simp add: follower3_def btc_long_pv_def on_close_def signal_loop_step_def dispatch_manual_def
      expand_manual_close_def ensure_copy_state_def synthetic_close_def Let_def)

lemma follower3_expansion:
  "expand_manual_close (on_close False 1700000000000 [0, 3] (follower3 ''READY''))
        (synthetic_close 1700000000000)
     = [close_event 1700000000000 3 ''BTC_USDT'' LONG btc_long_pv]"
  by (simp add: follower3_def btc_long_pv_def base_template_def on_close_def expand_manual_close_def
      ensure_copy_state_def expand_pvs_def expand_sides_def synthetic_close_def Let_def)

text \<open>
  A request for the master and follower 3, taken by the dispatcher as it was left: one
  event, for the long position of follower 3, and none for its idle short side.
\<close>

theorem manual_close_expansion_witness:
  "cmd_ids (on_close False 1700000000000 [0, 3] (follower3 ''READY'')) = [3]
   \<and> out_queue (on_close False 1700000000000 [0, 3] (follower3 ''READY''))
       = Some [synthetic_close 1700000000000]
   \<and> follower_pv (on_close False 1700000000000 [0, 3] (follower3 ''READY'')) 3 ''BTC_USDT'' LONG
       = Some btc_long_pv
   \<and> signal_loop_step (on_close False 1700000000000 [0, 3] (follower3 ''READY''))
       = Some ([close_event 1700000000000 3 ''BTC_USDT'' LONG btc_long_pv],
               (on_close False 1700000000000 [0, 3] (follower3 ''READY''))
                 \<lparr> out_queue := Some [], cmd_ids := [] \<rparr>)
   \<and> filter (\<lambda>e. mev_key e = (Some 3, ''BTC_USDT'', Some LONG))
        (expand_manual_close (on_close False 1700000000000 [0, 3] (follower3 ''READY''))
           (synthetic_close 1700000000000))
      = [close_event 1700000000000 3 ''BTC_USDT'' LONG btc_long_pv]
   \<and> filter (\<lambda>e. mev_key e = (Some 3, ''BTC_USDT'', Some SHORT))
        (expand_manual_close (on_close False 1700000000000 [0, 3] (follower3 ''READY''))
           (synthetic_close 1700000000000))
      = []"
proof -
  let ?mc1 = "on_close False 1700000000000 [0, 3] (follower3 ''READY'')"
  have req: "filter (\<lambda>cid. cid \<noteq> 0) [0, 3 :: int] \<noteq> []" "out_queue (follower3 ''READY'') = Some []"
      "distinct [0, 3 :: int]"
    by (simp_all add: follower3_def)
  have taken: "out_queue ?mc1 = Some (synthetic_close 1700000000000 # [])"
    by (simp add: on_close_def follower3_def Let_def)
  have wf: "\<forall>cid rt. copy_runtime_states ?mc1 cid = Some rt \<longrightarrow> runtime_wf rt"
    by (simp add: on_close_def follower3_def runtime_wf_def dict_keys_distinct_def Let_def)
  note rule = manual_close_expansion [OF req refl taken refl wf refl]
  have pvL: "follower_pv ?mc1 3 ''BTC_USDT'' LONG = Some btc_long_pv"
    and pvS: "follower_pv ?mc1 3 ''BTC_USDT'' SHORT = Some base_template"
    by (simp_all add: follower_pv_def on_close_def follower3_def pv_lookup_def Let_def)
  have ids: "cmd_ids ?mc1 = [3]"
    using rule by simp
  have step: "signal_loop_step ?mc1
       = Some (expand_manual_close ?mc1 (synthetic_close 1700000000000),
               ?mc1\<lparr> out_queue := Some [], cmd_ids := [] \<rparr>)"
    using rule by blast
  have exact: "\<forall>cid symbol d. filter (\<lambda>e. mev_key e = (Some cid, symbol, Some d))
          (expand_manual_close ?mc1 (synthetic_close 1700000000000)) =
          (case follower_pv ?mc1 cid symbol d of
             Some pv \<Rightarrow> if cid \<in> set [0, 3] \<and> cid \<noteq> 0 \<and> in_position pv \<and> qty pv > 0
                        then [close_event 1700000000000 cid symbol d pv] else []
           | None \<Rightarrow> [])"
    using rule by blast
  have long: "filter (\<lambda>e. mev_key e = (Some 3, ''BTC_USDT'', Some LONG))
        (expand_manual_close ?mc1 (synthetic_close 1700000000000))
      = [close_event 1700000000000 3 ''BTC_USDT'' LONG btc_long_pv]"
    using exact [rule_format, of 3 "''BTC_USDT''" LONG]
    by (simp add: pvL) (simp add: btc_long_pv_def)
  have short: "filter (\<lambda>e. mev_key e = (Some 3, ''BTC_USDT'', Some SHORT))
        (expand_manual_close ?mc1 (synthetic_close 1700000000000)) = []"
    using exact [rule_format, of 3 "''BTC_USDT''" SHORT]
    by (simp add: pvS) (simp add: base_template_def)
  show ?thesis
    using ids taken pvL step long short by (simp add: follower3_expansion)
qed

end
